theory Spec2Isabelle
  imports Main
begin

section \<open>HTML to AsciiDoc conversion (gulp/helpers/html-to-asciidoc.js)\<close>

text \<open>
  The converter walks the tree that \<^verbatim>\<open>node-html-parser\<close> builds and renders it to AsciiDoc
  text. The parser is a third-party library, so the development starts at the parsed tree.
  Strings are lists of 8-bit characters, read as the code units below 256 (Latin-1). White
  space is the white space of JavaScript's \<^verbatim>\<open>trim\<close> and \<^verbatim>\<open>\s\<close> in that range, and case
  conversion is JavaScript's on that range.
\<close>

subsection \<open>Document tree\<close>

text \<open>
  A node is a text node (\<^verbatim>\<open>nodeType === 3\<close>) or an element (\<^verbatim>\<open>nodeType === 1\<close>); with its
  default options, which \<^verbatim>\<open>convert\<close> uses, the parser keeps no comment nodes. The root that \<^verbatim>\<open>parse\<close>
  returns is an element whose \<^verbatim>\<open>tagName\<close> is \<^verbatim>\<open>null\<close>. The converter and the selectors compare
  tag names in lower case, so the stored name may have either case; the examples use the
  upper case that the parser reports. Attribute names are the lower-case keys the parser
  stores, and a text node holds its decoded text. Under the same options the content of a
  \<^verbatim>\<open>pre\<close> element is not parsed: the element has one text node below it, which holds the
  markup as written. \<^verbatim>\<open>classList\<close> holds the tokens of the \<^verbatim>\<open>class\<close> attribute as written,
  which the parser keeps apart from the decoded value that \<^verbatim>\<open>getAttribute\<close> returns.
\<close>

datatype node =
    TextNode (nodeText: string)
  | HTMLElement (tagName: "string option") (attrs: "(string \<times> string) list")
      (classList: "string list") (childNodes: "node list")
where
  "childNodes (TextNode t) = []"
| "tagName (TextNode t) = None"
| "attrs (TextNode t) = []"
| "classList (TextNode t) = []"

datatype error = RangeError | TypeError

text \<open>The converter object: its only field is the list nesting depth.\<close>

record converter =
  listDepth :: int

definition HtmlToAsciiDocConverter :: converter where
  "HtmlToAsciiDocConverter = \<lparr>listDepth = 0\<rparr>"

definition createHtmlToAsciiDocConverter :: converter where
  "createHtmlToAsciiDocConverter = HtmlToAsciiDocConverter"

subsection \<open>String primitives of the host language\<close>

definition isSpace :: "char \<Rightarrow> bool" where
  "isSpace c = (let n = (of_char c :: nat) in (9 \<le> n \<and> n \<le> 13) \<or> n = 32 \<or> n = 160)"

definition isWordChar :: "char \<Rightarrow> bool" where
  "isWordChar c = (let n = (of_char c :: nat) in
     (48 \<le> n \<and> n \<le> 57) \<or> (65 \<le> n \<and> n \<le> 90) \<or> n = 95 \<or> (97 \<le> n \<and> n \<le> 122))"

text \<open>
  \<^verbatim>\<open>toLowerCase\<close>: the capitals A to Z and, among the Latin-1 letters, those from 192 to
  222 but the multiplication sign 215 move up by 32.
\<close>

definition lowerChar :: "char \<Rightarrow> char" where
  "lowerChar c = (let n = (of_char c :: nat) in
     if (65 \<le> n \<and> n \<le> 90) \<or> (192 \<le> n \<and> n \<le> 222 \<and> n \<noteq> 215)
     then char_of (n + 32) else c)"

definition toLowerCase :: "string \<Rightarrow> string" where
  "toLowerCase s = map lowerChar s"

text \<open>
  \<^verbatim>\<open>toUpperCase\<close>: the letters a to z and those from 224 to 254 but the division sign 247
  move down by 32, and the sharp s (223) becomes \<^verbatim>\<open>SS\<close>. JavaScript maps the micro sign (181)
  and the y with diaeresis (255) to capitals above code point 255, which a string of this
  development cannot hold; \<open>upperCaseInRange\<close> says that a string has neither.
\<close>

definition upperChars :: "char \<Rightarrow> string" where
  "upperChars c = (let n = (of_char c :: nat) in
     if (97 \<le> n \<and> n \<le> 122) \<or> (224 \<le> n \<and> n \<le> 254 \<and> n \<noteq> 247)
     then [char_of (n - 32)]
     else if n = 223 then ''SS'' else [c])"

definition toUpperCase :: "string \<Rightarrow> string" where
  "toUpperCase s = concat (map upperChars s)"

definition upperCaseInRange :: "string \<Rightarrow> bool" where
  "upperCaseInRange s = list_all (\<lambda>c. (of_char c :: nat) \<noteq> 181 \<and> (of_char c :: nat) \<noteq> 255) s"

definition trim :: "string \<Rightarrow> string" where
  "trim s = rev (dropWhile isSpace (rev (dropWhile isSpace s)))"

definition startsWith :: "string \<Rightarrow> string \<Rightarrow> bool" where
  "startsWith s p = (take (length p) s = p)"

text \<open>\<^verbatim>\<open>String.prototype.repeat\<close> throws a RangeError on a negative count.\<close>

definition repeat :: "string \<Rightarrow> int \<Rightarrow> error + string" where
  "repeat s n = (if n < 0 then Inl RangeError else Inr (concat (replicate (nat n) s)))"

text \<open>\<^verbatim>\<open>s.split('\n')\<close>: the pieces between the separators; never the empty array.\<close>

fun split :: "char \<Rightarrow> string \<Rightarrow> string list" where
  "split sep [] = [[]]"
| "split sep (c # cs) =
     (if c = sep then [] # split sep cs
      else (case split sep cs of [] \<Rightarrow> [[c]] | l # ls \<Rightarrow> (c # l) # ls))"

fun join :: "string \<Rightarrow> string list \<Rightarrow> string" where
  "join sep [] = []"
| "join sep [l] = l"
| "join sep (l # ls) = l @ sep @ join sep ls"

text \<open>\<^verbatim>\<open>a || ''\<close> on the result of an attribute lookup.\<close>

definition orEmpty :: "string option \<Rightarrow> string" where
  "orEmpty v = (case v of None \<Rightarrow> [] | Some s \<Rightarrow> s)"

subsection \<open>Tree queries\<close>

definition getAttribute :: "node \<Rightarrow> string \<Rightarrow> string option" where
  "getAttribute n name = map_of (attrs n) name"

text \<open>Tokens of a \<^verbatim>\<open>class\<close> attribute: the maximal runs of non-space characters.\<close>

fun tokens :: "string \<Rightarrow> string \<Rightarrow> string list" where
  "tokens acc [] = (if acc = [] then [] else [acc])"
| "tokens acc (c # cs) =
     (if isSpace c then (if acc = [] then tokens [] cs else acc # tokens [] cs)
      else tokens (acc @ [c]) cs)"

definition isElement :: "node \<Rightarrow> bool" where
  "isElement n = (case n of TextNode _ \<Rightarrow> False | HTMLElement _ _ _ _ \<Rightarrow> True)"

text \<open>A type selector such as \<^verbatim>\<open>code\<close> or \<^verbatim>\<open>tr\<close>: elements only, compared in lower case.\<close>

definition isTag :: "string \<Rightarrow> node \<Rightarrow> bool" where
  "isTag name n = (case n of TextNode _ \<Rightarrow> False
     | HTMLElement tg _ _ _ \<Rightarrow> (case tg of None \<Rightarrow> False | Some t \<Rightarrow> toLowerCase t = name))"

text \<open>
  A class selector such as \<^verbatim>\<open>.content\<close>: the selector engine reads the \<^verbatim>\<open>class\<close> attribute
  through \<^verbatim>\<open>getAttribute\<close> and looks for the name between white space. The \<^verbatim>\<open>classList\<close>
  of an element is another thing: the parser fills it from the attribute as written.
\<close>

definition hasClass :: "string \<Rightarrow> node \<Rightarrow> bool" where
  "hasClass cls n = (isElement n \<and> cls \<in> set (tokens [] (orEmpty (getAttribute n ''class''))))"

text \<open>
  The element descendants of a node in document order, the node itself excluded: the
  candidates of \<^verbatim>\<open>querySelector\<close> and \<^verbatim>\<open>querySelectorAll\<close>, which take the first and all of
  those that match.
\<close>

fun descendants :: "node \<Rightarrow> node list" where
  "descendants (TextNode t) = []"
| "descendants (HTMLElement tg as cl cs) =
     concat (map (\<lambda>c. (if isElement c then [c] else []) @ descendants c) cs)"

definition querySelectorAll :: "(node \<Rightarrow> bool) \<Rightarrow> node \<Rightarrow> node list" where
  "querySelectorAll sel n = filter sel (descendants n)"

definition querySelector :: "(node \<Rightarrow> bool) \<Rightarrow> node \<Rightarrow> node option" where
  "querySelector sel n = find sel (descendants n)"

text \<open>\<^verbatim>\<open>:scope > li\<close>: the direct children that are \<^verbatim>\<open>li\<close> elements.\<close>

definition scopeChildren :: "string \<Rightarrow> node \<Rightarrow> node list" where
  "scopeChildren name n = filter (isTag name) (childNodes n)"

text \<open>
  \<^verbatim>\<open>.icon i\<close>: the \<^verbatim>\<open>i\<close> elements below the node that have an ancestor of class \<^verbatim>\<open>icon\<close>
  which is itself below the node. The flag tells whether such an ancestor has been passed.
\<close>

fun selectIconI :: "bool \<Rightarrow> node \<Rightarrow> node list" where
  "selectIconI inIcon (TextNode t) = []"
| "selectIconI inIcon (HTMLElement tg as cl cs) =
     concat (map (\<lambda>c. (if inIcon \<and> isTag ''i'' c then [c] else [])
                      @ selectIconI (inIcon \<or> hasClass ''icon'' c) c) cs)"

definition querySelectorIconI :: "node \<Rightarrow> node option" where
  "querySelectorIconI n = (case selectIconI False n of [] \<Rightarrow> None | x # _ \<Rightarrow> Some x)"

subsection \<open>Plain text content\<close>

fun getTextContent :: "node \<Rightarrow> string" where
  "getTextContent (TextNode t) = t"
| "getTextContent (HTMLElement tg as cl cs) =
     concat (map (\<lambda>child. case child of TextNode t \<Rightarrow> t
                                   | HTMLElement _ _ _ _ \<Rightarrow> getTextContent child) cs)"

text \<open>
  The plain text of a node in the words of the specification: the text of all descendant
  text nodes in document order, the markup left out.
\<close>

fun childText :: "node \<Rightarrow> string" where
  "childText (TextNode t) = t"
| "childText (HTMLElement tg as cl cs) = concat (map childText cs)"

subsection \<open>Language of a code block\<close>

text \<open>
  \<^verbatim>\<open>classList.match(/language-(\w+)/)\<close>: the leftmost place where \<^verbatim>\<open>language-\<close> is followed by
  a word character; the group is the longest run of word characters there.
\<close>

fun matchLanguage :: "string \<Rightarrow> string option" where
  "matchLanguage [] = None"
| "matchLanguage (c # cs) =
     (let s = c # cs; rest = drop 9 s in
      if take 9 s = ''language-'' \<and> rest \<noteq> [] \<and> isWordChar (hd rest)
      then Some (takeWhile isWordChar rest)
      else matchLanguage cs)"

definition extractLanguage :: "node \<Rightarrow> string" where
  "extractLanguage codeNode =
     (let classList = orEmpty (getAttribute codeNode ''class'') in
      case matchLanguage classList of
        Some w \<Rightarrow> w
      | None \<Rightarrow>
         (case getAttribute codeNode ''data-lang'' of
            None \<Rightarrow> ''text''
          | Some dataLang \<Rightarrow> if dataLang \<noteq> [] then dataLang else ''text''))"

subsection \<open>Tables\<close>

text \<open>
  One line per cell. \<^verbatim>\<open>cell.tagName.toLowerCase()\<close> is a TypeError on a node without a tag
  name.
\<close>

definition cellLine :: "node \<Rightarrow> error + string" where
  "cellLine cell =
     (let content = trim (getTextContent cell) in
      case tagName cell of
        None \<Rightarrow> Inl TypeError
      | Some t \<Rightarrow> Inr ((if toLowerCase t = ''th'' then ''|*'' else ''|'') @ content @ ''\<newline>''))"

fun cellLines :: "node list \<Rightarrow> error + string" where
  "cellLines [] = Inr []"
| "cellLines (cell # cells) =
     (case cellLine cell of
        Inl e \<Rightarrow> Inl e
      | Inr l \<Rightarrow> (case cellLines cells of Inl e \<Rightarrow> Inl e | Inr ls \<Rightarrow> Inr (l @ ls)))"

fun rowLines :: "node list \<Rightarrow> error + string" where
  "rowLines [] = Inr []"
| "rowLines (row # rows) =
     (case cellLines (querySelectorAll (\<lambda>n. isTag ''th'' n \<or> isTag ''td'' n) row) of
        Inl e \<Rightarrow> Inl e
      | Inr l \<Rightarrow> (case rowLines rows of Inl e \<Rightarrow> Inl e | Inr ls \<Rightarrow> Inr (l @ ls)))"

definition processTable :: "node \<Rightarrow> error + string" where
  \<open>processTable n =
     (let rows = querySelectorAll (isTag ''tr'') n in
      if length rows = 0 then Inr []
      else (case rowLines rows of
              Inl e \<Rightarrow> Inl e
            | Inr ls \<Rightarrow> Inr (''[cols="*"]\<newline>|===\<newline>'' @ ls @ ''|===\<newline>\<newline>'')))\<close>

subsection \<open>The recursive render\<close>

text \<open>
  Every function that can reach \<^verbatim>\<open>processList\<close> takes the converter and returns it with
  the rendered text, or the error that was thrown. \<^verbatim>\<open>processChildNodes\<close> is the
  \<^verbatim>\<open>map(...).join('')\<close> over the children, \<^verbatim>\<open>processItems\<close> the \<^verbatim>\<open>forEach\<close> over the items
  of a list.
\<close>

function processNode :: "converter \<Rightarrow> node \<Rightarrow> error + (string \<times> converter)"
  and processChildren :: "converter \<Rightarrow> node \<Rightarrow> error + (string \<times> converter)"
  and processChildNodes :: "converter \<Rightarrow> node list \<Rightarrow> error + (string \<times> converter)"
  and processList :: "converter \<Rightarrow> node \<Rightarrow> string \<Rightarrow> error + (string \<times> converter)"
  and processItems :: "converter \<Rightarrow> string \<Rightarrow> node list \<Rightarrow> error + (string \<times> converter)"
  and processBlockquote :: "converter \<Rightarrow> node \<Rightarrow> error + (string \<times> converter)"
  and processAdmonition :: "converter \<Rightarrow> node \<Rightarrow> error + (string \<times> converter)"
where
  "processNode this (TextNode t) = Inr (t, this)"
| "processNode this (HTMLElement tg as cl cs) =
     (let node = HTMLElement tg as cl cs;
          tagName = (case tg of None \<Rightarrow> [] | Some t \<Rightarrow> toLowerCase t) in
      if tagName = ''h1'' then Inr (''= '' @ getTextContent node @ ''\<newline>\<newline>'', this)
      else if tagName = ''h2'' then Inr (''== '' @ getTextContent node @ ''\<newline>\<newline>'', this)
      else if tagName = ''h3'' then Inr (''=== '' @ getTextContent node @ ''\<newline>\<newline>'', this)
      else if tagName = ''h4'' then Inr (''==== '' @ getTextContent node @ ''\<newline>\<newline>'', this)
      else if tagName = ''h5'' then Inr (''===== '' @ getTextContent node @ ''\<newline>\<newline>'', this)
      else if tagName = ''h6'' then Inr (''====== '' @ getTextContent node @ ''\<newline>\<newline>'', this)
      else if tagName = ''p'' then
        (case processChildren this node of
           Inl e \<Rightarrow> Inl e
         | Inr (pContent, this') \<Rightarrow>
             Inr (if pContent \<noteq> [] then pContent @ ''\<newline>\<newline>'' else [], this'))
      else if tagName = ''strong'' \<or> tagName = ''b'' then
        Inr (''*'' @ getTextContent node @ ''*'', this)
      else if tagName = ''em'' \<or> tagName = ''i'' then
        Inr (''_'' @ getTextContent node @ ''_'', this)
      else if tagName = ''code'' then
        Inr (''`'' @ getTextContent node @ ''`'', this)
      else if tagName = ''pre'' then
        (case querySelector (isTag ''code'') node of
           Some codeNode \<Rightarrow>
             (let language = extractLanguage codeNode;
                  code = getTextContent codeNode in
              Inr (''[source,'' @ language @ '']\<newline>----\<newline>'' @ code
                   @ ''\<newline>----\<newline>\<newline>'', this))
         | None \<Rightarrow>
             Inr (''----\<newline>'' @ getTextContent node @ ''\<newline>----\<newline>\<newline>'', this))
      else if tagName = ''a'' then
        (let href = orEmpty (getAttribute node ''href'');
             linkText = getTextContent node in
         if href = linkText \<or> linkText = [] then Inr (href, this)
         else Inr (href @ ''['' @ linkText @ '']'', this))
      else if tagName = ''ul'' then processList this node ''*''
      else if tagName = ''ol'' then processList this node ''.''
      else if tagName = ''li'' then processChildren this node
      else if tagName = ''table'' then
        (case processTable node of Inl e \<Rightarrow> Inl e | Inr s \<Rightarrow> Inr (s, this))
      else if tagName = ''blockquote'' then processBlockquote this node
      else if tagName = ''div'' then
        (if ''admonitionblock'' \<in> set (classList node) then processAdmonition this node
         else if ''listingblock'' \<in> set (classList node)
                 \<or> ''literalblock'' \<in> set (classList node) then
           (let content = getTextContent
                  (case querySelector (hasClass ''content'') node of
                     Some c \<Rightarrow> c | None \<Rightarrow> node) in
            Inr (''----\<newline>'' @ content @ ''\<newline>----\<newline>\<newline>'', this))
         else processChildren this node)
      else if tagName = ''br'' then Inr ('' +\<newline>'', this)
      else if tagName = ''hr'' then Inr ([CHR 0x27, CHR 0x27, CHR 0x27] @ ''\<newline>\<newline>'', this)
      else if tagName = ''img'' then
        (let src = orEmpty (getAttribute node ''src'');
             alt = orEmpty (getAttribute node ''alt'') in
         Inr (''image::'' @ src @ ''['' @ alt @ '']\<newline>\<newline>'', this))
      else processChildren this node)"
| "processChildren this node = processChildNodes this (childNodes node)"
| "processChildNodes this [] = Inr ([], this)"
| "processChildNodes this (child # rest) =
     (case processNode this child of
        Inl e \<Rightarrow> Inl e
      | Inr (s, this') \<Rightarrow>
          (case processChildNodes this' rest of
             Inl e \<Rightarrow> Inl e
           | Inr (ss, this'') \<Rightarrow> Inr (s @ ss, this'')))"
| "processList this node marker =
     (let this1 = this\<lparr>listDepth := listDepth this + 1\<rparr>;
          items = scopeChildren ''li'' node in
      case repeat marker (listDepth this1) of
        Inl e \<Rightarrow> Inl e
      | Inr prefix \<Rightarrow>
          (case processItems this1 prefix items of
             Inl e \<Rightarrow> Inl e
           | Inr (result, this2) \<Rightarrow>
               Inr (result @ ''\<newline>'', this2\<lparr>listDepth := listDepth this2 - 1\<rparr>)))"
| "processItems this prefix [] = Inr ([], this)"
| "processItems this prefix (item # items) =
     (case processNode this item of
        Inl e \<Rightarrow> Inl e
      | Inr (s, this') \<Rightarrow>
          (let content = trim s in
           case processItems this' prefix items of
             Inl e \<Rightarrow> Inl e
           | Inr (result, this'') \<Rightarrow>
               Inr (prefix @ '' '' @ content @ ''\<newline>'' @ result, this'')))"
| "processBlockquote this node =
     (case processChildren this node of
        Inl e \<Rightarrow> Inl e
      | Inr (content, this') \<Rightarrow>
          (let lines = filter (\<lambda>line. trim line \<noteq> []) (split CHR ''\<newline>'' content) in
           Inr (''[quote]\<newline>____\<newline>'' @ join ''\<newline>'' lines
                @ ''\<newline>____\<newline>\<newline>'', this')))"
| "processAdmonition this node =
     (let admonitionType =
            (case querySelectorIconI node of
               None \<Rightarrow> ''NOTE''
             | Some iconElement \<Rightarrow>
                 (let title = orEmpty (getAttribute iconElement ''title'') in
                  if toUpperCase title \<noteq> [] then toUpperCase title else ''NOTE'')) in
      case querySelector (hasClass ''content'') node of
        None \<Rightarrow> Inr ([], this)
      | Some contentDiv \<Rightarrow>
          (case processNode this contentDiv of
             Inl e \<Rightarrow> Inl e
           | Inr (s, this') \<Rightarrow>
               (let content = trim s in
                Inr (''['' @ admonitionType @ '']\<newline>====\<newline>'' @ content
                     @ ''\<newline>====\<newline>\<newline>'', this'))))"
  by pat_completeness auto

text \<open>
  Termination: a call either goes to a smaller node, or stays at the node and moves from
  \<^verbatim>\<open>processNode\<close> to a handler, from a handler to \<^verbatim>\<open>processChildren\<close>, or from there to a loop.
\<close>

lemma size_descendants: "x \<in> set (descendants n) \<Longrightarrow> size x < size n"
proof (induction n arbitrary: x)
  case (TextNode t)
  then show ?case by simp
next
  case (HTMLElement tg as cl cs)
  then obtain c where c: "c \<in> set cs" and x: "x = c \<or> x \<in> set (descendants c)"
    by (auto split: if_splits)
  have "size c < size (HTMLElement tg as cl cs)"
    using c by (simp add: size_list_estimation' less_Suc_eq_le)
  moreover have "size x \<le> size c"
    using x HTMLElement.IH[OF c, of x] by auto
  ultimately show ?case by simp
qed

lemma size_querySelector:
  "querySelector sel n = Some x \<Longrightarrow> size x < size n"
  by (auto simp: querySelector_def find_Some_iff intro: size_descendants)

lemma size_list_filter_le: "size_list f (filter P xs) \<le> size_list f xs"
  by (induction xs) auto

lemma size_scopeChildren:
  "size_list size (scopeChildren name n) < Suc (size n)"
  by (cases n) (auto simp: scopeChildren_def intro: le_less_trans[OF size_list_filter_le])


fun callSize :: "((converter \<times> node) + (converter \<times> node) + (converter \<times> node list))
    + ((converter \<times> node \<times> string) + (converter \<times> string \<times> node list))
      + ((converter \<times> node) + (converter \<times> node)) \<Rightarrow> nat" where
  "callSize (Inl (Inl (this, n))) = 4 * size n + 3"
| "callSize (Inl (Inr (Inl (this, n)))) = 4 * size n + 1"
| "callSize (Inl (Inr (Inr (this, ns)))) = 4 * size_list size ns"
| "callSize (Inr (Inl (Inl (this, n, marker)))) = 4 * size n + 2"
| "callSize (Inr (Inl (Inr (this, prefix, ns)))) = 4 * size_list size ns"
| "callSize (Inr (Inr (Inl (this, n)))) = 4 * size n + 2"
| "callSize (Inr (Inr (Inr (this, n)))) = 4 * size n + 2"

lemma size_childNodes: "size_list size (childNodes n) < Suc (size n)"
  by (cases n) auto

termination processNode
proof (relation "measure callSize", goal_cases)
  case 1 show ?case by simp
next
  case (10 this node)
  show ?case using size_childNodes[of node] by simp
next
  case (13 this node marker x xa xb)
  show ?case using size_scopeChildren[of "''li''" node] 13 by simp
next
  case (17 this node x x2)
  then show ?case using size_querySelector[of "hasClass ''content''" node x2] by simp
qed simp_all


subsection \<open>Entry point\<close>

text \<open>
  \<^verbatim>\<open>convert(html)\<close> parses the fragment and renders the root. The argument \<open>root\<close> stands
  for the tree \<^verbatim>\<open>parse(html)\<close>: an element without a tag name over the top-level nodes.
\<close>

definition convert :: "converter \<Rightarrow> node \<Rightarrow> error + (string \<times> converter)" where
  "convert this root = processNode this root"

definition fragment :: "node list \<Rightarrow> node" where
  "fragment ns = HTMLElement None [] [] ns"

text \<open>The text a node renders to; the empty string stands in where the render throws.\<close>

definition render :: "converter \<Rightarrow> node \<Rightarrow> string" where
  "render this n = (case processNode this n of Inl e \<Rightarrow> [] | Inr (s, this') \<Rightarrow> s)"

text \<open>The \<^verbatim>\<open>case\<close> labels of the dispatch in \<^verbatim>\<open>processNode\<close>.\<close>

definition dispatchTags :: "string list" where
  "dispatchTags = [''h1'', ''h2'', ''h3'', ''h4'', ''h5'', ''h6'', ''p'', ''strong'', ''b'',
     ''em'', ''i'', ''code'', ''pre'', ''a'', ''ul'', ''ol'', ''li'', ''table'', ''blockquote'',
     ''div'', ''br'', ''hr'', ''img'']"

subsection \<open>The values the depth counter takes\<close>

text \<open>
  The render with the text left out and every assignment to \<^verbatim>\<open>this.listDepth\<close> recorded:
  \<^verbatim>\<open>this.listDepth++\<close> on entry to \<^verbatim>\<open>processList\<close> and \<^verbatim>\<open>this.listDepth--\<close> on its exit. The
  control flow is that of \<^verbatim>\<open>processNode\<close>; the handlers that only read text write nothing.
\<close>

definition textOnlyTags :: "string list" where
  "textOnlyTags = [''h1'', ''h2'', ''h3'', ''h4'', ''h5'', ''h6'', ''strong'', ''b'', ''em'', ''i'',
     ''code'', ''pre'', ''a'', ''br'', ''hr'', ''img'']"

function listDepthWrites :: "converter \<Rightarrow> node \<Rightarrow> error + (int list \<times> converter)"
  and listDepthWritesEach :: "converter \<Rightarrow> node list \<Rightarrow> error + (int list \<times> converter)"
where
  "listDepthWrites this (TextNode t) = Inr ([], this)"
| "listDepthWrites this (HTMLElement tg as cl cs) =
     (let node = HTMLElement tg as cl cs;
          tagName = (case tg of None \<Rightarrow> [] | Some t \<Rightarrow> toLowerCase t) in
      if tagName \<in> set textOnlyTags then Inr ([], this)
      else if tagName = ''ul'' \<or> tagName = ''ol'' then
        (let marker = (if tagName = ''ul'' then ''*'' else ''.'');
             this1 = this\<lparr>listDepth := listDepth this + 1\<rparr> in
         case repeat marker (listDepth this1) of
           Inl e \<Rightarrow> Inl e
         | Inr prefix \<Rightarrow>
             (case listDepthWritesEach this1 (scopeChildren ''li'' node) of
                Inl e \<Rightarrow> Inl e
              | Inr (ws, this2) \<Rightarrow>
                  Inr ([listDepth this1] @ ws @ [listDepth this2 - 1],
                       this2\<lparr>listDepth := listDepth this2 - 1\<rparr>)))
      else if tagName = ''table'' then
        (case processTable node of Inl e \<Rightarrow> Inl e | Inr s \<Rightarrow> Inr ([], this))
      else if tagName = ''div'' \<and> ''admonitionblock'' \<in> set (classList node) then
        (case querySelector (hasClass ''content'') node of
           None \<Rightarrow> Inr ([], this)
         | Some contentDiv \<Rightarrow> listDepthWrites this contentDiv)
      else if tagName = ''div'' \<and> (''listingblock'' \<in> set (classList node)
                 \<or> ''literalblock'' \<in> set (classList node)) then Inr ([], this)
      else listDepthWritesEach this cs)"
| "listDepthWritesEach this [] = Inr ([], this)"
| "listDepthWritesEach this (child # rest) =
     (case listDepthWrites this child of
        Inl e \<Rightarrow> Inl e
      | Inr (ws, this') \<Rightarrow>
          (case listDepthWritesEach this' rest of
             Inl e \<Rightarrow> Inl e
           | Inr (ws', this'') \<Rightarrow> Inr (ws @ ws', this'')))"
  by pat_completeness auto

fun writesSize :: "(converter \<times> node) + (converter \<times> node list) \<Rightarrow> nat" where
  "writesSize (Inl (this, n)) = 2 * size n + 1"
| "writesSize (Inr (this, ns)) = 2 * size_list size ns"

termination listDepthWrites
proof (relation "measure writesSize", goal_cases)
  case 1 show ?case by simp
next
  case (2 this tg as cl cs x xa xb xc xd)
  then show ?case using size_scopeChildren[of "''li''" "HTMLElement tg as cl cs"] by simp
next
  case (3 this tg as cl cs x xa x2)
  then show ?case using size_querySelector[of "hasClass ''content''" x x2] by simp
qed simp_all

subsection \<open>The render on a bounded call stack\<close>

text \<open>
  The recursion of the converter has no guard on its depth: a call that finds the stack
  full throws a RangeError. The functions below are those above with the stack made
  explicit. The first argument is the number of calls the stack can still hold; a call of
  a method of the converter (\<^verbatim>\<open>convert\<close>, \<^verbatim>\<open>processNode\<close>, \<^verbatim>\<open>processChildren\<close>,
  \<^verbatim>\<open>getTextContent\<close>, \<^verbatim>\<open>extractLanguage\<close>, \<^verbatim>\<open>processList\<close>, \<^verbatim>\<open>processTable\<close>,
  \<^verbatim>\<open>processBlockquote\<close>, \<^verbatim>\<open>processAdmonition\<close>) takes one of them, and the callbacks and
  built-ins run on the account of the method that calls them. An error comes with the
  converter as the throw leaves it.
\<close>

fun getTextContentOn :: "nat \<Rightarrow> converter \<Rightarrow> node \<Rightarrow> (error \<times> converter) + string"
  and getTextContentEach :: "nat \<Rightarrow> converter \<Rightarrow> node list \<Rightarrow> (error \<times> converter) + string"
where
  "getTextContentOn 0 this node = Inl (RangeError, this)"
| "getTextContentOn (Suc stack) this (TextNode t) = Inr t"
| "getTextContentOn (Suc stack) this (HTMLElement tg as cl cs) = getTextContentEach stack this cs"
| "getTextContentEach stack this [] = Inr []"
| "getTextContentEach stack this (TextNode t # rest) =
     (case getTextContentEach stack this rest of
        Inl e \<Rightarrow> Inl e
      | Inr ss \<Rightarrow> Inr (t @ ss))"
| "getTextContentEach stack this (HTMLElement tg as cl cs # rest) =
     (case getTextContentOn stack this (HTMLElement tg as cl cs) of
        Inl e \<Rightarrow> Inl e
      | Inr s \<Rightarrow>
          (case getTextContentEach stack this rest of
             Inl e \<Rightarrow> Inl e
           | Inr ss \<Rightarrow> Inr (s @ ss)))"

fun extractLanguageOn :: "nat \<Rightarrow> converter \<Rightarrow> node \<Rightarrow> (error \<times> converter) + string" where
  "extractLanguageOn 0 this codeNode = Inl (RangeError, this)"
| "extractLanguageOn (Suc stack) this codeNode = Inr (extractLanguage codeNode)"

definition cellLineOn :: "nat \<Rightarrow> converter \<Rightarrow> node \<Rightarrow> (error \<times> converter) + string" where
  "cellLineOn stack this cell =
     (case getTextContentOn stack this cell of
        Inl e \<Rightarrow> Inl e
      | Inr text \<Rightarrow>
          (let content = trim text in
           case tagName cell of
             None \<Rightarrow> Inl (TypeError, this)
           | Some t \<Rightarrow>
               Inr ((if toLowerCase t = ''th'' then ''|*'' else ''|'') @ content @ ''\<newline>'')))"

fun cellLinesOn :: "nat \<Rightarrow> converter \<Rightarrow> node list \<Rightarrow> (error \<times> converter) + string" where
  "cellLinesOn stack this [] = Inr []"
| "cellLinesOn stack this (cell # cells) =
     (case cellLineOn stack this cell of
        Inl e \<Rightarrow> Inl e
      | Inr l \<Rightarrow>
          (case cellLinesOn stack this cells of Inl e \<Rightarrow> Inl e | Inr ls \<Rightarrow> Inr (l @ ls)))"

fun rowLinesOn :: "nat \<Rightarrow> converter \<Rightarrow> node list \<Rightarrow> (error \<times> converter) + string" where
  "rowLinesOn stack this [] = Inr []"
| "rowLinesOn stack this (row # rows) =
     (case cellLinesOn stack this (querySelectorAll (\<lambda>n. isTag ''th'' n \<or> isTag ''td'' n) row) of
        Inl e \<Rightarrow> Inl e
      | Inr l \<Rightarrow>
          (case rowLinesOn stack this rows of Inl e \<Rightarrow> Inl e | Inr ls \<Rightarrow> Inr (l @ ls)))"

fun processTableOn :: "nat \<Rightarrow> converter \<Rightarrow> node \<Rightarrow> (error \<times> converter) + string" where
  \<open>processTableOn 0 this n = Inl (RangeError, this)\<close>
| \<open>processTableOn (Suc stack) this n =
     (let rows = querySelectorAll (isTag ''tr'') n in
      if length rows = 0 then Inr []
      else (case rowLinesOn stack this rows of
              Inl e \<Rightarrow> Inl e
            | Inr ls \<Rightarrow> Inr (''[cols="*"]\<newline>|===\<newline>'' @ ls @ ''|===\<newline>\<newline>'')))\<close>

text \<open>A heading: the marker, the plain text and two line feeds.\<close>

definition headingOn :: "nat \<Rightarrow> converter \<Rightarrow> node \<Rightarrow> string
    \<Rightarrow> (error \<times> converter) + (string \<times> converter)" where
  "headingOn stack this node marker =
     (case getTextContentOn stack this node of
        Inl e \<Rightarrow> Inl e
      | Inr text \<Rightarrow> Inr (marker @ '' '' @ text @ ''\<newline>\<newline>'', this))"

function processNodeOn :: "nat \<Rightarrow> converter \<Rightarrow> node \<Rightarrow> (error \<times> converter) + (string \<times> converter)"
  and processChildrenOn :: "nat \<Rightarrow> converter \<Rightarrow> node \<Rightarrow> (error \<times> converter) + (string \<times> converter)"
  and processChildNodesOn :: "nat \<Rightarrow> converter \<Rightarrow> node list \<Rightarrow> (error \<times> converter) + (string \<times> converter)"
  and processListOn :: "nat \<Rightarrow> converter \<Rightarrow> node \<Rightarrow> string \<Rightarrow> (error \<times> converter) + (string \<times> converter)"
  and processItemsOn :: "nat \<Rightarrow> converter \<Rightarrow> string \<Rightarrow> node list \<Rightarrow> (error \<times> converter) + (string \<times> converter)"
  and processBlockquoteOn :: "nat \<Rightarrow> converter \<Rightarrow> node \<Rightarrow> (error \<times> converter) + (string \<times> converter)"
  and processAdmonitionOn :: "nat \<Rightarrow> converter \<Rightarrow> node \<Rightarrow> (error \<times> converter) + (string \<times> converter)"
where
  "processNodeOn 0 this node = Inl (RangeError, this)"
| "processNodeOn (Suc stack) this (TextNode t) = Inr (t, this)"
| "processNodeOn (Suc stack) this (HTMLElement tg as cl cs) =
     (let node = HTMLElement tg as cl cs;
          tagName = (case tg of None \<Rightarrow> [] | Some t \<Rightarrow> toLowerCase t) in
      if tagName = ''h1'' then headingOn stack this node ''=''
      else if tagName = ''h2'' then headingOn stack this node ''==''
      else if tagName = ''h3'' then headingOn stack this node ''===''
      else if tagName = ''h4'' then headingOn stack this node ''====''
      else if tagName = ''h5'' then headingOn stack this node ''=====''
      else if tagName = ''h6'' then headingOn stack this node ''======''
      else if tagName = ''p'' then
        (case processChildrenOn stack this node of
           Inl e \<Rightarrow> Inl e
         | Inr (pContent, this') \<Rightarrow>
             Inr (if pContent \<noteq> [] then pContent @ ''\<newline>\<newline>'' else [], this'))
      else if tagName = ''strong'' \<or> tagName = ''b'' then
        (case getTextContentOn stack this node of
           Inl e \<Rightarrow> Inl e
         | Inr text \<Rightarrow> Inr (''*'' @ text @ ''*'', this))
      else if tagName = ''em'' \<or> tagName = ''i'' then
        (case getTextContentOn stack this node of
           Inl e \<Rightarrow> Inl e
         | Inr text \<Rightarrow> Inr (''_'' @ text @ ''_'', this))
      else if tagName = ''code'' then
        (case getTextContentOn stack this node of
           Inl e \<Rightarrow> Inl e
         | Inr text \<Rightarrow> Inr (''`'' @ text @ ''`'', this))
      else if tagName = ''pre'' then
        (case querySelector (isTag ''code'') node of
           Some codeNode \<Rightarrow>
             (case extractLanguageOn stack this codeNode of
                Inl e \<Rightarrow> Inl e
              | Inr language \<Rightarrow>
                  (case getTextContentOn stack this codeNode of
                     Inl e \<Rightarrow> Inl e
                   | Inr code \<Rightarrow>
                       Inr (''[source,'' @ language @ '']\<newline>----\<newline>'' @ code
                            @ ''\<newline>----\<newline>\<newline>'', this)))
         | None \<Rightarrow>
             (case getTextContentOn stack this node of
                Inl e \<Rightarrow> Inl e
              | Inr text \<Rightarrow> Inr (''----\<newline>'' @ text @ ''\<newline>----\<newline>\<newline>'', this)))
      else if tagName = ''a'' then
        (let href = orEmpty (getAttribute node ''href'') in
         case getTextContentOn stack this node of
           Inl e \<Rightarrow> Inl e
         | Inr linkText \<Rightarrow>
             if href = linkText \<or> linkText = [] then Inr (href, this)
             else Inr (href @ ''['' @ linkText @ '']'', this))
      else if tagName = ''ul'' then processListOn stack this node ''*''
      else if tagName = ''ol'' then processListOn stack this node ''.''
      else if tagName = ''li'' then processChildrenOn stack this node
      else if tagName = ''table'' then
        (case processTableOn stack this node of Inl e \<Rightarrow> Inl e | Inr s \<Rightarrow> Inr (s, this))
      else if tagName = ''blockquote'' then processBlockquoteOn stack this node
      else if tagName = ''div'' then
        (if ''admonitionblock'' \<in> set (classList node) then processAdmonitionOn stack this node
         else if ''listingblock'' \<in> set (classList node)
                 \<or> ''literalblock'' \<in> set (classList node) then
           (case getTextContentOn stack this
                  (case querySelector (hasClass ''content'') node of
                     Some c \<Rightarrow> c | None \<Rightarrow> node) of
              Inl e \<Rightarrow> Inl e
            | Inr content \<Rightarrow> Inr (''----\<newline>'' @ content @ ''\<newline>----\<newline>\<newline>'', this))
         else processChildrenOn stack this node)
      else if tagName = ''br'' then Inr ('' +\<newline>'', this)
      else if tagName = ''hr'' then Inr ([CHR 0x27, CHR 0x27, CHR 0x27] @ ''\<newline>\<newline>'', this)
      else if tagName = ''img'' then
        (let src = orEmpty (getAttribute node ''src'');
             alt = orEmpty (getAttribute node ''alt'') in
         Inr (''image::'' @ src @ ''['' @ alt @ '']\<newline>\<newline>'', this))
      else processChildrenOn stack this node)"
| "processChildrenOn 0 this node = Inl (RangeError, this)"
| "processChildrenOn (Suc stack) this node = processChildNodesOn stack this (childNodes node)"
| "processChildNodesOn stack this [] = Inr ([], this)"
| "processChildNodesOn stack this (child # rest) =
     (case processNodeOn stack this child of
        Inl e \<Rightarrow> Inl e
      | Inr (s, this') \<Rightarrow>
          (case processChildNodesOn stack this' rest of
             Inl e \<Rightarrow> Inl e
           | Inr (ss, this'') \<Rightarrow> Inr (s @ ss, this'')))"
| "processListOn 0 this node marker = Inl (RangeError, this)"
| "processListOn (Suc stack) this node marker =
     (let this1 = this\<lparr>listDepth := listDepth this + 1\<rparr>;
          items = scopeChildren ''li'' node in
      case repeat marker (listDepth this1) of
        Inl e \<Rightarrow> Inl (e, this1)
      | Inr prefix \<Rightarrow>
          (case processItemsOn stack this1 prefix items of
             Inl e \<Rightarrow> Inl e
           | Inr (result, this2) \<Rightarrow>
               Inr (result @ ''\<newline>'', this2\<lparr>listDepth := listDepth this2 - 1\<rparr>)))"
| "processItemsOn stack this prefix [] = Inr ([], this)"
| "processItemsOn stack this prefix (item # items) =
     (case processNodeOn stack this item of
        Inl e \<Rightarrow> Inl e
      | Inr (s, this') \<Rightarrow>
          (let content = trim s in
           case processItemsOn stack this' prefix items of
             Inl e \<Rightarrow> Inl e
           | Inr (result, this'') \<Rightarrow>
               Inr (prefix @ '' '' @ content @ ''\<newline>'' @ result, this'')))"
| "processBlockquoteOn 0 this node = Inl (RangeError, this)"
| "processBlockquoteOn (Suc stack) this node =
     (case processChildrenOn stack this node of
        Inl e \<Rightarrow> Inl e
      | Inr (content, this') \<Rightarrow>
          (let lines = filter (\<lambda>line. trim line \<noteq> []) (split CHR ''\<newline>'' content) in
           Inr (''[quote]\<newline>____\<newline>'' @ join ''\<newline>'' lines
                @ ''\<newline>____\<newline>\<newline>'', this')))"
| "processAdmonitionOn 0 this node = Inl (RangeError, this)"
| "processAdmonitionOn (Suc stack) this node =
     (let admonitionType =
            (case querySelectorIconI node of
               None \<Rightarrow> ''NOTE''
             | Some iconElement \<Rightarrow>
                 (let title = orEmpty (getAttribute iconElement ''title'') in
                  if toUpperCase title \<noteq> [] then toUpperCase title else ''NOTE'')) in
      case querySelector (hasClass ''content'') node of
        None \<Rightarrow> Inr ([], this)
      | Some contentDiv \<Rightarrow>
          (case processNodeOn stack this contentDiv of
             Inl e \<Rightarrow> Inl e
           | Inr (s, this') \<Rightarrow>
               (let content = trim s in
                Inr (''['' @ admonitionType @ '']\<newline>====\<newline>'' @ content
                     @ ''\<newline>====\<newline>\<newline>'', this'))))"
  by pat_completeness auto

fun callRank :: "((nat \<times> converter \<times> node) + (nat \<times> converter \<times> node) + (nat \<times> converter \<times> node list))
    + ((nat \<times> converter \<times> node \<times> string) + (nat \<times> converter \<times> string \<times> node list))
      + ((nat \<times> converter \<times> node) + (nat \<times> converter \<times> node)) \<Rightarrow> nat \<times> nat" where
  "callRank (Inl (Inl (stack, this, n))) = (stack, 0)"
| "callRank (Inl (Inr (Inl (stack, this, n)))) = (stack, 0)"
| "callRank (Inl (Inr (Inr (stack, this, ns)))) = (stack, Suc (length ns))"
| "callRank (Inr (Inl (Inl (stack, this, n, marker)))) = (stack, 0)"
| "callRank (Inr (Inl (Inr (stack, this, prefix, ns)))) = (stack, Suc (length ns))"
| "callRank (Inr (Inr (Inl (stack, this, n)))) = (stack, 0)"
| "callRank (Inr (Inr (Inr (stack, this, n)))) = (stack, 0)"

termination processNodeOn
proof (relation "inv_image (less_than <*lex*> less_than) callRank", goal_cases)
  case 1
  show ?case by (intro wf_inv_image wf_lex_prod wf_less_than)
qed simp_all

fun convertOn :: "nat \<Rightarrow> converter \<Rightarrow> node \<Rightarrow> (error \<times> converter) + (string \<times> converter)" where
  "convertOn 0 this root = Inl (RangeError, this)"
| "convertOn (Suc stack) this root = processNodeOn stack this root"

text \<open>
  The loop of \<^verbatim>\<open>generateAsciiDoc\<close> as far as the converter is concerned: one converter for
  all documents; a conversion that throws is caught and logged, and the loop goes on with
  the same converter.
\<close>

fun convertDocuments :: "nat \<Rightarrow> converter \<Rightarrow> node list \<Rightarrow> (error + string) list \<times> converter" where
  "convertDocuments stack this [] = ([], this)"
| "convertDocuments stack this (root # roots) =
     (case convertOn stack this root of
        Inl (e, this') \<Rightarrow>
          (case convertDocuments stack this' roots of (outs, this'') \<Rightarrow> (Inl e # outs, this''))
      | Inr (s, this') \<Rightarrow>
          (case convertDocuments stack this' roots of (outs, this'') \<Rightarrow> (Inr s # outs, this'')))"

text \<open>
  How deep the elements of a tree are nested, the stack that is enough for \<^verbatim>\<open>processNode\<close>
  on a tree, and a text under a given number of nested \<^verbatim>\<open>span\<close> elements.
\<close>

fun nesting :: "node \<Rightarrow> nat" where
  "nesting (TextNode t) = 0"
| "nesting (HTMLElement tg as cl cs) = Suc (foldr max (map nesting cs) 0)"

definition stackNeed :: "node \<Rightarrow> nat" where
  "stackNeed n = 3 * nesting n + 1"

fun nestedSpans :: "nat \<Rightarrow> node" where
  "nestedSpans 0 = TextNode ''x''"
| "nestedSpans (Suc depth) = HTMLElement (Some ''SPAN'') [] [] [nestedSpans depth]"

text \<open>A result of the render without the stack, as a result of the render on a stack.\<close>

definition embed :: "converter \<Rightarrow> error + 'a \<Rightarrow> (error \<times> converter) + 'a" where
  "embed this r = (case r of Inl e \<Rightarrow> Inl (e, this) | Inr x \<Rightarrow> Inr x)"

section \<open>The document pipeline (gulp/tasks/generate-asciidoc.js)\<close>

text \<open>
  The part of \<^verbatim>\<open>generateAsciiDoc\<close> between the selection of the main content and the
  write of the file: the page title, the conversion, the header and the textual clean-up.
  File access, logging and the removal of navigation elements are outside.
\<close>

text \<open>
  \<^verbatim>\<open>textContent\<close> of the parser: the text of the descendant text nodes in document order,
  where a \<^verbatim>\<open>br\<close> element counts as a line feed (node-html-parser 6.1 and later).
\<close>

fun textContent :: "node \<Rightarrow> string" where
  "textContent (TextNode t) = t"
| "textContent (HTMLElement tg as cl cs) =
     (if (case tg of None \<Rightarrow> [] | Some t \<Rightarrow> toLowerCase t) = ''br'' then ''\<newline>''
      else concat (map textContent cs))"

definition pageTitleOf :: "node \<Rightarrow> string" where
  "pageTitleOf mainContent =
     (case querySelector (isTag ''h1'') mainContent of
        None \<Rightarrow> []
      | Some h1Element \<Rightarrow> trim (textContent h1Element))"

text \<open>
  The header: the first line of the converted text is dropped when it starts with \<^verbatim>\<open>= \<close>,
  then the title line is put in front. \<^verbatim>\<open>lines[0]\<close> of an empty array would be
  \<^verbatim>\<open>undefined\<close>, and \<^verbatim>\<open>startsWith\<close> on it a TypeError.
\<close>

definition addHeader :: "string \<Rightarrow> string \<Rightarrow> error + string" where
  "addHeader pageTitle asciidoc =
     (if pageTitle \<noteq> [] then
        (case split CHR ''\<newline>'' asciidoc of
           [] \<Rightarrow> Inl TypeError
         | first # rest \<Rightarrow>
             (let asciidoc' = (if startsWith first ''= '' then join ''\<newline>'' rest else asciidoc)
              in Inr (''= '' @ pageTitle @ ''\<newline>'' @ asciidoc')))
      else Inr asciidoc)"

text \<open>\<^verbatim>\<open>replace(/\n{3,}/g, '\n\n')\<close>: a run of three or more line feeds becomes two.\<close>

function collapseBlankLines :: "string \<Rightarrow> string" where
  "collapseBlankLines [] = []"
| "collapseBlankLines (c # cs) =
     (if 3 \<le> length (takeWhile (\<lambda>x. x = CHR ''\<newline>'') (c # cs))
      then ''\<newline>\<newline>'' @ collapseBlankLines (dropWhile (\<lambda>x. x = CHR ''\<newline>'') (c # cs))
      else c # collapseBlankLines cs)"
  by pat_completeness auto

termination collapseBlankLines
proof (relation "measure length", goal_cases)
  case 1 show ?case by simp
next
  case (2 c cs)
  then have "c = CHR ''\<newline>''" by (auto split: if_splits)
  then show ?case by (simp add: length_dropWhile_le less_Suc_eq_le)
qed simp

text \<open>
  \<^verbatim>\<open>replace(/pat/g, rep)\<close> for a literal, non-empty pattern: the matches from left to right,
  without overlap. After a match at \<open>c # cs\<close> the scan goes on behind the pattern.
\<close>

fun replaceAll :: "string \<Rightarrow> string \<Rightarrow> string \<Rightarrow> string" where
  "replaceAll pat rep [] = []"
| "replaceAll pat rep (c # cs) =
     (if startsWith (c # cs) pat then rep @ replaceAll pat rep (drop (length pat - 1) cs)
      else c # replaceAll pat rep cs)"

definition cleanUp :: "string \<Rightarrow> string" where
  "cleanUp asciidoc =
     replaceAll ''.html#'' ''.adoc#''
       (replaceAll ''.html['' ''.adoc['' (collapseBlankLines asciidoc))"

text \<open>
  One document. \<^verbatim>\<open>mainContent.innerHTML\<close> is parsed again by \<^verbatim>\<open>convert\<close>; the tree it
  yields is taken to be the children of the main content under a fresh root.
\<close>

definition generateDocument :: "converter \<Rightarrow> node \<Rightarrow> error + (string \<times> converter)" where
  "generateDocument this mainContent =
     (let pageTitle = pageTitleOf mainContent in
      case convert this (fragment (childNodes mainContent)) of
        Inl e \<Rightarrow> Inl e
      | Inr (asciidoc, this') \<Rightarrow>
          (case addHeader pageTitle asciidoc of
             Inl e \<Rightarrow> Inl e
           | Inr asciidoc' \<Rightarrow> Inr (cleanUp asciidoc', this')))"

text \<open>What a call leaves behind: the error thrown, or the converter after the return.\<close>

definition outcome :: "error + ('a \<times> converter) \<Rightarrow> error + converter" where
  "outcome r = (case r of Inl e \<Rightarrow> Inl e | Inr (x, this) \<Rightarrow> Inr this)"

section \<open>Properties of the converter\<close>

subsection \<open>Tables never throw\<close>

lemma isTag_tagName: "isTag name c \<Longrightarrow> \<exists>t. tagName c = Some t \<and> toLowerCase t = name"
  by (cases c) (auto simp: isTag_def split: option.splits)

lemma isTag_element:
  assumes "isTag name n"
  obtains t as cl cs where "n = HTMLElement (Some t) as cl cs" and "toLowerCase t = name"
  using assms by (cases n) (auto simp: isTag_def split: option.splits)

lemma cellLine_cell:
  assumes "isTag ''th'' c \<or> isTag ''td'' c"
  shows "cellLine c = Inr ((if isTag ''th'' c then ''|*'' else ''|'')
                            @ trim (getTextContent c) @ ''\<newline>'')"
proof -
  from assms obtain t where t: "tagName c = Some t" "toLowerCase t = ''th'' \<or> toLowerCase t = ''td''"
    by (auto dest: isTag_tagName)
  then have "isTag ''th'' c = (toLowerCase t = ''th'')"
    by (cases c) (auto simp: isTag_def)
  with t show ?thesis by (simp add: cellLine_def)
qed

lemma cellLines_cells:
  "\<forall>c \<in> set cs. isTag ''th'' c \<or> isTag ''td'' c \<Longrightarrow>
   cellLines cs = Inr (concat (map (\<lambda>c. (if isTag ''th'' c then ''|*'' else ''|'')
                            @ trim (getTextContent c) @ ''\<newline>'') cs))"
  by (induction cs) (simp_all add: cellLine_cell)

lemma rowLines_rows:
  "rowLines rows = Inr (concat (map (\<lambda>row. concat (map (\<lambda>c. (if isTag ''th'' c then ''|*'' else ''|'')
                            @ trim (getTextContent c) @ ''\<newline>'')
       (querySelectorAll (\<lambda>n. isTag ''th'' n \<or> isTag ''td'' n) row))) rows))"
  by (induction rows) (simp_all add: cellLines_cells querySelectorAll_def)

lemma processTable_ok: "\<exists>s. processTable n = Inr s"
  by (simp add: processTable_def Let_def rowLines_rows)

subsection \<open>The render returns and restores the depth\<close>

lemma processChildNodes_each:
  "(\<And>c. c \<in> set ns \<Longrightarrow> processNode this c = Inr (render this c, this)) \<Longrightarrow>
   processChildNodes this ns = Inr (concat (map (render this) ns), this)"
  by (induction ns) simp_all

lemma processItems_each:
  "(\<And>c. c \<in> set ns \<Longrightarrow> processNode this c = Inr (render this c, this)) \<Longrightarrow>
   processItems this prefix ns =
     Inr (concat (map (\<lambda>item. prefix @ '' '' @ trim (render this item) @ ''\<newline>'') ns), this)"
  by (induction ns) (simp_all add: Let_def)

lemma size_child: "c \<in> set (childNodes n) \<Longrightarrow> size c < size n"
  by (cases n) (auto simp: size_list_estimation' less_Suc_eq_le)

lemma if_Inr:
  "(c \<Longrightarrow> \<exists>s. a = Inr (s, this)) \<Longrightarrow> (\<not> c \<Longrightarrow> \<exists>s. b = Inr (s, this))
   \<Longrightarrow> \<exists>s. (if c then a else b) = Inr (s, (this::converter))"
  by simp

lemma Inr_render: "processNode this n = Inr (s, this') \<Longrightarrow> render this n = s"
  by (simp add: render_def)

lemma processNode_ok: "0 \<le> listDepth this \<Longrightarrow> processNode this n = Inr (render this n, this)"
proof (induction n arbitrary: this rule: measure_induct_rule[of size])
  case (less n)
  have "\<exists>s. processNode this n = Inr (s, this)"
  proof (cases n)
    case (TextNode t)
    then show ?thesis by simp
  next
    case (HTMLElement tg as cl cs)
    have kids: "\<And>c this'. c \<in> set (childNodes n) \<Longrightarrow> 0 \<le> listDepth this'
        \<Longrightarrow> processNode this' c = Inr (render this' c, this')"
      using less.IH size_child by blast
    obtain ch where children: "processChildren this n = Inr (ch, this)"
      using processChildNodes_each[of "childNodes n" this] kids less.prems by simp
    have list: "\<exists>s. processList this n marker = Inr (s, this)" for marker
    proof -
      let ?this1 = "this\<lparr>listDepth := listDepth this + 1\<rparr>"
      have "0 \<le> listDepth ?this1" using less.prems by simp
      then have "\<And>c. c \<in> set (scopeChildren ''li'' n)
          \<Longrightarrow> processNode ?this1 c = Inr (render ?this1 c, ?this1)"
        using kids by (simp add: scopeChildren_def)
      from processItems_each[OF this] less.prems
      show ?thesis by (simp add: Let_def repeat_def)
    qed
    have quote: "\<exists>s. processBlockquote this n = Inr (s, this)"
      using children by (simp add: Let_def del: processChildren.simps)
    have admon: "\<exists>s. processAdmonition this n = Inr (s, this)"
    proof (cases "querySelector (hasClass ''content'') n")
      case None
      then show ?thesis by (simp add: Let_def)
    next
      case (Some c)
      then have "processNode this c = Inr (render this c, this)"
        using less.IH less.prems size_querySelector by blast
      with Some show ?thesis by (simp add: Let_def)
    qed
    obtain s where table: "processTable n = Inr s" using processTable_ok by blast
    show ?thesis
      unfolding HTMLElement processNode.simps Let_def
      apply (intro if_Inr)
      using children list quote admon table unfolding HTMLElement
      apply (simp_all del: processChildren.simps processList.simps processBlockquote.simps processAdmonition.simps split: option.split)
      done
  qed
  then show ?case by (auto simp: render_def)
qed

lemma processChildNodes_ok:
  "0 \<le> listDepth this \<Longrightarrow>
   processChildNodes this ns = Inr (concat (map (render this) ns), this)"
  by (rule processChildNodes_each) (rule processNode_ok)

lemma processItems_ok:
  "0 \<le> listDepth this \<Longrightarrow>
   processItems this prefix ns =
     Inr (concat (map (\<lambda>item. prefix @ '' '' @ trim (render this item) @ ''\<newline>'') ns), this)"
  by (rule processItems_each) (rule processNode_ok)

lemma processList_ok:
  assumes "0 \<le> listDepth this"
  shows "processList this n marker =
     Inr (concat (map (\<lambda>item. concat (replicate (nat (listDepth this + 1)) marker) @ '' ''
                          @ trim (render (this\<lparr>listDepth := listDepth this + 1\<rparr>) item) @ ''\<newline>'')
                      (scopeChildren ''li'' n)) @ ''\<newline>'', this)"
proof -
  let ?this1 = "this\<lparr>listDepth := listDepth this + 1\<rparr>"
  have "0 \<le> listDepth ?this1" using assms by simp
  from processItems_ok[OF this] assms show ?thesis
    by (simp add: Let_def repeat_def)
qed

lemma processNode_table:
  "isTag ''table'' n \<Longrightarrow>
   processNode this n = (case processTable n of Inl e \<Rightarrow> Inl e | Inr s \<Rightarrow> Inr (s, this))"
  by (cases n) (auto simp: isTag_def split: option.splits)

subsection \<open>Tables\<close>

text \<open>
  C10. A table element without any \<^verbatim>\<open>tr\<close> descendant renders as the empty string: neither
  the \<^verbatim>\<open>[cols="*"]\<close> line nor a \<^verbatim>\<open>|===\<close> delimiter is emitted.
\<close>

theorem table_without_rows:
  "isTag ''table'' n \<Longrightarrow> querySelectorAll (isTag ''tr'') n = [] \<Longrightarrow>
   processTable n = Inr [] \<and> processNode this n = Inr ([], this)"
  by (simp add: processNode_table processTable_def)

theorem table_without_rows_witness:
  "isTag ''table'' (HTMLElement (Some ''TABLE'') [] [] [TextNode ''x''])
   \<and> querySelectorAll (isTag ''tr'') (HTMLElement (Some ''TABLE'') [] [] [TextNode ''x'']) = []
   \<and> processTable (HTMLElement (Some ''TABLE'') [] [] [TextNode ''x'']) = Inr []
   \<and> processNode HtmlToAsciiDocConverter (HTMLElement (Some ''TABLE'') [] [] [TextNode ''x''])
       = Inr ([], HtmlToAsciiDocConverter)"
proof -
  have tag: "isTag ''table'' (HTMLElement (Some ''TABLE'') [] [] [TextNode ''x''])"
    by code_simp
  have rows: "querySelectorAll (isTag ''tr'') (HTMLElement (Some ''TABLE'') [] [] [TextNode ''x'']) = []"
    by code_simp
  from table_without_rows[OF tag rows, of HtmlToAsciiDocConverter] tag rows
  show ?thesis by simp
qed

text \<open>
  C3. The table of the claim, \<^verbatim>\<open><table><tr><th>H</th></tr><tr><td>D</td></tr></table>\<close>, renders
  as the claim says, and a cell gives the trimmed text of all its descendants. A table inside
  a cell does not give one line per cell: for
  \<^verbatim>\<open><table><tr><td>A<table><tr><td>B</td></tr></table></td></tr></table>\<close> the rows are taken
  with \<^verbatim>\<open>querySelectorAll('tr')\<close> and the cells of a row with \<^verbatim>\<open>querySelectorAll('th, td')\<close>,
  which both reach into the inner table, so the cell \<^verbatim>\<open>B\<close> is emitted once as a cell of the
  outer row and once more as the cell of the inner row.
\<close>

theorem nested_table_cell_twice:
  \<open>convert HtmlToAsciiDocConverter
     (fragment [HTMLElement (Some ''TABLE'') [] []
        [HTMLElement (Some ''TR'') [] [] [HTMLElement (Some ''TH'') [] [] [TextNode ''H'']],
         HTMLElement (Some ''TR'') [] [] [HTMLElement (Some ''TD'') [] [] [TextNode ''D'']]]])
     = Inr (''[cols="*"]\<newline>|===\<newline>|*H\<newline>|D\<newline>|===\<newline>\<newline>'', HtmlToAsciiDocConverter)
   \<and> convert HtmlToAsciiDocConverter
     (fragment [HTMLElement (Some ''TABLE'') [] []
        [HTMLElement (Some ''TR'') [] []
           [HTMLElement (Some ''TD'') [] []
              [TextNode '' a '', HTMLElement (Some ''P'') [] []
                 [HTMLElement (Some ''EM'') [] [] [TextNode ''b''], TextNode '' c '']]]]])
     = Inr (''[cols="*"]\<newline>|===\<newline>|a b c\<newline>|===\<newline>\<newline>'', HtmlToAsciiDocConverter)
   \<and> convert HtmlToAsciiDocConverter
     (fragment [HTMLElement (Some ''TABLE'') [] []
        [HTMLElement (Some ''TR'') [] []
           [HTMLElement (Some ''TD'') [] []
              [TextNode ''A'',
               HTMLElement (Some ''TABLE'') [] []
                 [HTMLElement (Some ''TR'') [] []
                    [HTMLElement (Some ''TD'') [] [] [TextNode ''B'']]]]]]])
     = Inr (''[cols="*"]\<newline>|===\<newline>|AB\<newline>|B\<newline>|B\<newline>|===\<newline>\<newline>'', HtmlToAsciiDocConverter)\<close>
  by code_simp

subsection \<open>Emphasis\<close>

lemma getTextContent_childText: "getTextContent n = childText n"
proof (induction n)
  case (TextNode t)
  show ?case by simp
next
  case (HTMLElement tg as cl cs)
  have "(case c of TextNode t \<Rightarrow> t | HTMLElement _ _ _ _ \<Rightarrow> getTextContent c) = childText c"
    if "c \<in> set cs" for c
    using HTMLElement.IH[OF that] by (cases c) simp_all
  then have "map (\<lambda>child. case child of TextNode t \<Rightarrow> t | HTMLElement _ _ _ _ \<Rightarrow> getTextContent child) cs
        = map childText cs"
    by (intro map_cong refl)
  then show ?case by (simp only: getTextContent.simps childText.simps)
qed

text \<open>
  C4, counterexample. The claim expects \<^verbatim>\<open>*_x_*\<close> for \<^verbatim>\<open><strong><em>x</em></strong>\<close>; the
  converter returns another text.
\<close>

theorem strong_em_nesting_counterexample:
  "render HtmlToAsciiDocConverter
     (fragment [HTMLElement (Some ''STRONG'') [] [] [HTMLElement (Some ''EM'') [] [] [TextNode ''x'']]])
   \<noteq> ''*_x_*''"
  by code_simp

text \<open>
  C4, as amended. \<^verbatim>\<open>strong\<close> and \<^verbatim>\<open>b\<close> wrap the plain text of their descendants in \<^verbatim>\<open>*\<close>,
  \<^verbatim>\<open>em\<close> and \<^verbatim>\<open>i\<close> wrap it in \<^verbatim>\<open>_\<close>: markup below them contributes its text only. So
  \<^verbatim>\<open><strong>x</strong>\<close> and \<^verbatim>\<open><b>x</b>\<close> give \<^verbatim>\<open>*x*\<close>, \<^verbatim>\<open><em>x</em>\<close> and \<^verbatim>\<open><i>x</i>\<close> give
  \<^verbatim>\<open>_x_\<close>, \<^verbatim>\<open><strong><em>x</em></strong>\<close> gives \<^verbatim>\<open>*x*\<close> and \<^verbatim>\<open><em><strong>x</strong></em>\<close>
  gives \<^verbatim>\<open>_x_\<close>, the marker of the inner element being dropped.
\<close>

theorem strong_em_plain_text:
  "((isTag ''strong'' n \<or> isTag ''b'' n) \<longrightarrow>
      processNode this n = Inr (''*'' @ childText n @ ''*'', this))
   \<and> ((isTag ''em'' n \<or> isTag ''i'' n) \<longrightarrow>
      processNode this n = Inr (''_'' @ childText n @ ''_'', this))
   \<and> convert HtmlToAsciiDocConverter
       (fragment [HTMLElement (Some ''STRONG'') [] [] [TextNode ''x'']])
     = Inr (''*x*'', HtmlToAsciiDocConverter)
   \<and> convert HtmlToAsciiDocConverter
       (fragment [HTMLElement (Some ''B'') [] [] [TextNode ''x'']])
     = Inr (''*x*'', HtmlToAsciiDocConverter)
   \<and> convert HtmlToAsciiDocConverter
       (fragment [HTMLElement (Some ''EM'') [] [] [TextNode ''x'']])
     = Inr (''_x_'', HtmlToAsciiDocConverter)
   \<and> convert HtmlToAsciiDocConverter
       (fragment [HTMLElement (Some ''I'') [] [] [TextNode ''x'']])
     = Inr (''_x_'', HtmlToAsciiDocConverter)
   \<and> convert HtmlToAsciiDocConverter
       (fragment [HTMLElement (Some ''STRONG'') [] [] [HTMLElement (Some ''EM'') [] [] [TextNode ''x'']]])
     = Inr (''*x*'', HtmlToAsciiDocConverter)
   \<and> convert HtmlToAsciiDocConverter
       (fragment [HTMLElement (Some ''EM'') [] [] [HTMLElement (Some ''STRONG'') [] [] [TextNode ''x'']]])
     = Inr (''_x_'', HtmlToAsciiDocConverter)"
proof -
  have star: "processNode this n = Inr (''*'' @ childText n @ ''*'', this)"
    if "isTag ''strong'' n \<or> isTag ''b'' n"
  proof -
    from that obtain t as cl cs where n: "n = HTMLElement (Some t) as cl cs"
      and t: "toLowerCase t = ''strong'' \<or> toLowerCase t = ''b''"
      by (auto elim: isTag_element)
    from t show ?thesis
      unfolding n using getTextContent_childText[of "HTMLElement (Some t) as cl cs"]
      by (auto simp: Let_def simp del: getTextContent.simps childText.simps)
  qed
  have under: "processNode this n = Inr (''_'' @ childText n @ ''_'', this)"
    if "isTag ''em'' n \<or> isTag ''i'' n"
  proof -
    from that obtain t as cl cs where n: "n = HTMLElement (Some t) as cl cs"
      and t: "toLowerCase t = ''em'' \<or> toLowerCase t = ''i''"
      by (auto elim: isTag_element)
    from t show ?thesis
      unfolding n using getTextContent_childText[of "HTMLElement (Some t) as cl cs"]
      by (auto simp: Let_def simp del: getTextContent.simps childText.simps)
  qed
  have examples:
    "convert HtmlToAsciiDocConverter
       (fragment [HTMLElement (Some ''STRONG'') [] [] [TextNode ''x'']])
     = Inr (''*x*'', HtmlToAsciiDocConverter)"
    "convert HtmlToAsciiDocConverter
       (fragment [HTMLElement (Some ''B'') [] [] [TextNode ''x'']])
     = Inr (''*x*'', HtmlToAsciiDocConverter)"
    "convert HtmlToAsciiDocConverter
       (fragment [HTMLElement (Some ''EM'') [] [] [TextNode ''x'']])
     = Inr (''_x_'', HtmlToAsciiDocConverter)"
    "convert HtmlToAsciiDocConverter
       (fragment [HTMLElement (Some ''I'') [] [] [TextNode ''x'']])
     = Inr (''_x_'', HtmlToAsciiDocConverter)"
    "convert HtmlToAsciiDocConverter
       (fragment [HTMLElement (Some ''STRONG'') [] [] [HTMLElement (Some ''EM'') [] [] [TextNode ''x'']]])
     = Inr (''*x*'', HtmlToAsciiDocConverter)"
    "convert HtmlToAsciiDocConverter
       (fragment [HTMLElement (Some ''EM'') [] [] [HTMLElement (Some ''STRONG'') [] [] [TextNode ''x'']]])
     = Inr (''_x_'', HtmlToAsciiDocConverter)"
    by code_simp+
  from star under examples show ?thesis by (intro conjI impI)
qed

theorem strong_em_plain_text_witness:
  "isTag ''strong'' (HTMLElement (Some ''STRONG'') [] []
       [TextNode ''a'', HTMLElement (Some ''EM'') [] [] [TextNode ''b'']])
   \<and> isTag ''b'' (HTMLElement (Some ''B'') [] [] [TextNode ''x''])
   \<and> isTag ''em'' (HTMLElement (Some ''EM'') [] []
       [HTMLElement (Some ''CODE'') [] [] [TextNode ''a''], TextNode ''b''])
   \<and> isTag ''i'' (HTMLElement (Some ''I'') [] [] [TextNode ''x''])
   \<and> processNode HtmlToAsciiDocConverter (HTMLElement (Some ''STRONG'') [] []
       [TextNode ''a'', HTMLElement (Some ''EM'') [] [] [TextNode ''b'']])
     = Inr (''*ab*'', HtmlToAsciiDocConverter)
   \<and> processNode HtmlToAsciiDocConverter (HTMLElement (Some ''B'') [] [] [TextNode ''x''])
     = Inr (''*x*'', HtmlToAsciiDocConverter)
   \<and> processNode HtmlToAsciiDocConverter (HTMLElement (Some ''EM'') [] []
       [HTMLElement (Some ''CODE'') [] [] [TextNode ''a''], TextNode ''b''])
     = Inr (''_ab_'', HtmlToAsciiDocConverter)
   \<and> processNode HtmlToAsciiDocConverter (HTMLElement (Some ''I'') [] [] [TextNode ''x''])
     = Inr (''_x_'', HtmlToAsciiDocConverter)"
proof -
  let ?s = "HTMLElement (Some ''STRONG'') [] []
       [TextNode ''a'', HTMLElement (Some ''EM'') [] [] [TextNode ''b'']]"
  let ?b = "HTMLElement (Some ''B'') [] [] [TextNode ''x'']"
  let ?e = "HTMLElement (Some ''EM'') [] []
       [HTMLElement (Some ''CODE'') [] [] [TextNode ''a''], TextNode ''b'']"
  let ?i = "HTMLElement (Some ''I'') [] [] [TextNode ''x'']"
  have tags: "isTag ''strong'' ?s" "isTag ''b'' ?b" "isTag ''em'' ?e" "isTag ''i'' ?i"
    by code_simp+
  have texts: "childText ?s = ''ab''" "childText ?b = ''x''" "childText ?e = ''ab''"
    "childText ?i = ''x''"
    by simp_all
  from strong_em_plain_text[where n = ?s and this = HtmlToAsciiDocConverter] tags(1)
  have s: "processNode HtmlToAsciiDocConverter ?s = Inr (''*'' @ childText ?s @ ''*'', HtmlToAsciiDocConverter)"
    by blast
  from strong_em_plain_text[where n = ?b and this = HtmlToAsciiDocConverter] tags(2)
  have b: "processNode HtmlToAsciiDocConverter ?b = Inr (''*'' @ childText ?b @ ''*'', HtmlToAsciiDocConverter)"
    by blast
  from strong_em_plain_text[where n = ?e and this = HtmlToAsciiDocConverter] tags(3)
  have e: "processNode HtmlToAsciiDocConverter ?e = Inr (''_'' @ childText ?e @ ''_'', HtmlToAsciiDocConverter)"
    by blast
  from strong_em_plain_text[where n = ?i and this = HtmlToAsciiDocConverter] tags(4)
  have i: "processNode HtmlToAsciiDocConverter ?i = Inr (''_'' @ childText ?i @ ''_'', HtmlToAsciiDocConverter)"
    by blast
  from s b e i show ?thesis unfolding texts using tags by simp
qed

subsection \<open>Lists\<close>

lemma processNode_list:
  "isTag ''ul'' n \<Longrightarrow> processNode this n = processList this n ''*''"
  "isTag ''ol'' n \<Longrightarrow> processNode this n = processList this n ''.''"
  by (cases n; auto simp: isTag_def simp del: processList.simps split: option.splits)+

text \<open>
  C2, counterexample. For \<^verbatim>\<open><ul><li>A<ul><li>B</li></ul></li></ul>\<close> the claim expects the
  line \<^verbatim>\<open>* A\<close> followed by the line \<^verbatim>\<open>** B\<close>. The converter returns the single line
  \<^verbatim>\<open>* A** B\<close> and two empty pieces behind it; neither expected line is among the lines.
\<close>

theorem nested_list_counterexample:
  "split CHR ''\<newline>'' (render HtmlToAsciiDocConverter
     (fragment [HTMLElement (Some ''UL'') [] []
        [HTMLElement (Some ''LI'') [] []
           [TextNode ''A'',
            HTMLElement (Some ''UL'') [] [] [HTMLElement (Some ''LI'') [] [] [TextNode ''B'']]]]]))
     = [''* A** B'', [], []]
   \<and> ''* A'' \<notin> set (split CHR ''\<newline>'' (render HtmlToAsciiDocConverter
     (fragment [HTMLElement (Some ''UL'') [] []
        [HTMLElement (Some ''LI'') [] []
           [TextNode ''A'',
            HTMLElement (Some ''UL'') [] [] [HTMLElement (Some ''LI'') [] [] [TextNode ''B'']]]]])))
   \<and> ''** B'' \<notin> set (split CHR ''\<newline>'' (render HtmlToAsciiDocConverter
     (fragment [HTMLElement (Some ''UL'') [] []
        [HTMLElement (Some ''LI'') [] []
           [TextNode ''A'',
            HTMLElement (Some ''UL'') [] [] [HTMLElement (Some ''LI'') [] [] [TextNode ''B'']]]]])))"
  by code_simp

text \<open>
  C2, as amended. \<^verbatim>\<open><ul><li>A</li><li>B</li></ul>\<close> converts to exactly
  \<^verbatim>\<open>"* A\n* B\n\n"\<close>. The nested input converts to exactly \<^verbatim>\<open>"* A** B\n\n"\<close>: the line of the
  nested list carries the marker \<^verbatim>\<open>**\<close> and is appended to the text of its parent item
  without a line break. In general a list renders, for each direct \<^verbatim>\<open>li\<close> child in order, the
  list symbol repeated once per nesting depth, a space, the trimmed rendering of the item at
  that depth and a line feed, and one more line feed after the last item; the depth is the
  same after the list as before.
\<close>

theorem list_lines:
  "convert HtmlToAsciiDocConverter
     (fragment [HTMLElement (Some ''UL'') [] []
        [HTMLElement (Some ''LI'') [] [] [TextNode ''A''],
         HTMLElement (Some ''LI'') [] [] [TextNode ''B'']]])
     = Inr (''* A\<newline>* B\<newline>\<newline>'', HtmlToAsciiDocConverter)
   \<and> convert HtmlToAsciiDocConverter
     (fragment [HTMLElement (Some ''UL'') [] []
        [HTMLElement (Some ''LI'') [] []
           [TextNode ''A'',
            HTMLElement (Some ''UL'') [] [] [HTMLElement (Some ''LI'') [] [] [TextNode ''B'']]]]])
     = Inr (''* A** B\<newline>\<newline>'', HtmlToAsciiDocConverter)
   \<and> (0 \<le> listDepth this \<longrightarrow> isTag ''ul'' n \<or> isTag ''ol'' n \<longrightarrow>
        processNode this n =
          Inr (concat (map (\<lambda>item.
                   concat (replicate (nat (listDepth this + 1))
                            (if isTag ''ul'' n then ''*'' else ''.''))
                   @ '' '' @ trim (render (this\<lparr>listDepth := listDepth this + 1\<rparr>) item)
                   @ ''\<newline>'')
                 (scopeChildren ''li'' n)) @ ''\<newline>'', this))"
proof (intro conjI impI)
  show "convert HtmlToAsciiDocConverter
     (fragment [HTMLElement (Some ''UL'') [] []
        [HTMLElement (Some ''LI'') [] [] [TextNode ''A''],
         HTMLElement (Some ''LI'') [] [] [TextNode ''B'']]])
     = Inr (''* A\<newline>* B\<newline>\<newline>'', HtmlToAsciiDocConverter)"
    by code_simp
next
  show "convert HtmlToAsciiDocConverter
     (fragment [HTMLElement (Some ''UL'') [] []
        [HTMLElement (Some ''LI'') [] []
           [TextNode ''A'',
            HTMLElement (Some ''UL'') [] [] [HTMLElement (Some ''LI'') [] [] [TextNode ''B'']]]]])
     = Inr (''* A** B\<newline>\<newline>'', HtmlToAsciiDocConverter)"
    by code_simp
next
  assume depth: "0 \<le> listDepth this" and tag: "isTag ''ul'' n \<or> isTag ''ol'' n"
  have "\<not> (isTag ''ul'' n \<and> isTag ''ol'' n)"
    by (cases n) (auto simp: isTag_def split: option.splits)
  with tag show "processNode this n =
          Inr (concat (map (\<lambda>item.
                   concat (replicate (nat (listDepth this + 1))
                            (if isTag ''ul'' n then ''*'' else ''.''))
                   @ '' '' @ trim (render (this\<lparr>listDepth := listDepth this + 1\<rparr>) item)
                   @ ''\<newline>'')
                 (scopeChildren ''li'' n)) @ ''\<newline>'', this)"
    using processList_ok[OF depth, of n] processNode_list[of n this]
    by (auto simp del: processList.simps)
qed

theorem list_lines_witness:
  "0 \<le> listDepth HtmlToAsciiDocConverter
   \<and> (isTag ''ul'' (HTMLElement (Some ''OL'') [] [] [HTMLElement (Some ''LI'') [] [] [TextNode '' A '']])
      \<or> isTag ''ol'' (HTMLElement (Some ''OL'') [] [] [HTMLElement (Some ''LI'') [] [] [TextNode '' A '']]))
   \<and> processNode HtmlToAsciiDocConverter
        (HTMLElement (Some ''OL'') [] [] [HTMLElement (Some ''LI'') [] [] [TextNode '' A '']])
      = Inr (''. A\<newline>\<newline>'', HtmlToAsciiDocConverter)"
proof -
  let ?n = "HTMLElement (Some ''OL'') [] [] [HTMLElement (Some ''LI'') [] [] [TextNode '' A '']]"
  have depth: "0 \<le> listDepth HtmlToAsciiDocConverter"
    by (simp add: HtmlToAsciiDocConverter_def)
  have tag: "isTag ''ul'' ?n \<or> isTag ''ol'' ?n" by code_simp
  have out: "concat (map (\<lambda>item.
                   concat (replicate (nat (listDepth HtmlToAsciiDocConverter + 1))
                            (if isTag ''ul'' ?n then ''*'' else ''.''))
                   @ '' '' @ trim (render (HtmlToAsciiDocConverter
                        \<lparr>listDepth := listDepth HtmlToAsciiDocConverter + 1\<rparr>) item)
                   @ ''\<newline>'')
                 (scopeChildren ''li'' ?n)) @ ''\<newline>'' = ''. A\<newline>\<newline>''"
    by code_simp
  from list_lines[where this = HtmlToAsciiDocConverter and n = ?n] depth tag
  have "processNode HtmlToAsciiDocConverter ?n =
          Inr (concat (map (\<lambda>item.
                   concat (replicate (nat (listDepth HtmlToAsciiDocConverter + 1))
                            (if isTag ''ul'' ?n then ''*'' else ''.''))
                   @ '' '' @ trim (render (HtmlToAsciiDocConverter
                        \<lparr>listDepth := listDepth HtmlToAsciiDocConverter + 1\<rparr>) item)
                   @ ''\<newline>'')
                 (scopeChildren ''li'' ?n)) @ ''\<newline>'', HtmlToAsciiDocConverter)"
    by blast
  with out depth tag show ?thesis by simp
qed

subsection \<open>Code blocks\<close>

text \<open>
  C5. \<^verbatim>\<open>convert\<close> parses with the default options of the parser, under which the content of a
  \<^verbatim>\<open>pre\<close> element is not parsed: it is kept as one text node holding the markup as written.
  So for \<^verbatim>\<open><pre><code class="language-go">x</code></pre>\<close> and for \<^verbatim>\<open><pre><code>x</code></pre>\<close>
  the \<^verbatim>\<open>pre\<close> element has no \<^verbatim>\<open>code\<close> descendant: the converter returns a plain \<^verbatim>\<open>----\<close>
  block around the markup, without a \<^verbatim>\<open>[source,LANG]\<close> line. The branch written for a \<^verbatim>\<open>code\<close>
  descendant and \<^verbatim>\<open>extractLanguage\<close> would give the texts of the claim on a tree with the
  \<^verbatim>\<open>code\<close> element below the \<^verbatim>\<open>pre\<close> element, which this parse never builds.
\<close>

theorem pre_content_kept_as_text:
  \<open>convert HtmlToAsciiDocConverter
     (fragment [HTMLElement (Some ''PRE'') [] [] [TextNode ''<code class="language-go">x</code>'']])
     = Inr (''----\<newline><code class="language-go">x</code>\<newline>----\<newline>\<newline>'', HtmlToAsciiDocConverter)
   \<and> convert HtmlToAsciiDocConverter
     (fragment [HTMLElement (Some ''PRE'') [] [] [TextNode ''<code>x</code>'']])
     = Inr (''----\<newline><code>x</code>\<newline>----\<newline>\<newline>'', HtmlToAsciiDocConverter)
   \<and> querySelector (isTag ''code'')
       (HTMLElement (Some ''PRE'') [] [] [TextNode ''<code class="language-go">x</code>'']) = None
   \<and> processNode HtmlToAsciiDocConverter
       (HTMLElement (Some ''PRE'') [] []
          [HTMLElement (Some ''CODE'') [(''class'', ''language-go'')] [''language-go'']
             [TextNode ''x'']])
     = Inr (''[source,go]\<newline>----\<newline>x\<newline>----\<newline>\<newline>'', HtmlToAsciiDocConverter)
   \<and> processNode HtmlToAsciiDocConverter
       (HTMLElement (Some ''PRE'') [] [] [HTMLElement (Some ''CODE'') [] [] [TextNode ''x'']])
     = Inr (''[source,text]\<newline>----\<newline>x\<newline>----\<newline>\<newline>'', HtmlToAsciiDocConverter)\<close>
  by code_simp

subsection \<open>Admonitions\<close>

lemma processNode_admonition:
  assumes "isTag ''div'' n" and "''admonitionblock'' \<in> set (classList n)"
  shows "processNode this n = processAdmonition this n"
proof -
  from assms(1) obtain t as cl cs where n: "n = HTMLElement (Some t) as cl cs" and t: "toLowerCase t = ''div''"
    by (rule isTag_element)
  show ?thesis using assms(2) unfolding n
    by (simp add: t Let_def del: processAdmonition.simps)
qed

lemma toUpperCase_Nil: "(toUpperCase s = []) = (s = [])"
  by (cases s) (auto simp: toUpperCase_def upperChars_def Let_def)

text \<open>
  C6. For a \<^verbatim>\<open>div\<close> whose class list holds \<^verbatim>\<open>admonitionblock\<close>: without a descendant of class
  \<^verbatim>\<open>content\<close> the whole block renders as the empty string. With one, the block renders as
  \<^verbatim>\<open>[LABEL]\<close>, a line feed, \<^verbatim>\<open>====\<close>, a line feed, the trimmed rendering of the first such
  descendant, a line feed, \<^verbatim>\<open>====\<close> and two line feeds. LABEL is the \<^verbatim>\<open>title\<close> of the icon
  element in upper case, and \<^verbatim>\<open>NOTE\<close> when there is no icon element, no title or an empty
  title; the upper case is stated for the titles whose capitals are Latin-1 characters. The icon element is the first \<^verbatim>\<open>i\<close> element below an element of class \<^verbatim>\<open>icon\<close>: an
  \<^verbatim>\<open>i\<close> element elsewhere in the block, in the content for one, is not looked at. The title
  \<^verbatim>\<open>Warning\<close> gives the label \<^verbatim>\<open>WARNING\<close>, and letters with accents are capitalised too.
\<close>

theorem admonition_block:
  "(isTag ''div'' n \<longrightarrow> ''admonitionblock'' \<in> set (classList n) \<longrightarrow>
      querySelector (hasClass ''content'') n = None \<longrightarrow>
      processNode this n = Inr ([], this))
   \<and> (isTag ''div'' n \<longrightarrow> ''admonitionblock'' \<in> set (classList n) \<longrightarrow>
      querySelector (hasClass ''content'') n = Some contentDiv \<longrightarrow> 0 \<le> listDepth this \<longrightarrow>
      upperCaseInRange (case querySelectorIconI n of
                          None \<Rightarrow> []
                        | Some iconElement \<Rightarrow> orEmpty (getAttribute iconElement ''title'')) \<longrightarrow>
      processNode this n =
        Inr (''['' @ (case querySelectorIconI n of
                        None \<Rightarrow> ''NOTE''
                      | Some iconElement \<Rightarrow>
                          (case getAttribute iconElement ''title'' of
                             None \<Rightarrow> ''NOTE''
                           | Some title \<Rightarrow> if title = [] then ''NOTE'' else toUpperCase title))
             @ '']\<newline>====\<newline>'' @ trim (render this contentDiv) @ ''\<newline>====\<newline>\<newline>'', this))
   \<and> toUpperCase ''Warning'' = ''WARNING''
   \<and> toUpperCase ''abcdefghijklmnopqrstuvwxyz'' = ''ABCDEFGHIJKLMNOPQRSTUVWXYZ''
   \<and> toUpperCase (''Caf'' @ [CHR 0xE9]) = ''CAF'' @ [CHR 0xC9]
   \<and> upperCaseInRange (''Caf'' @ [CHR 0xE9])
   \<and> convert HtmlToAsciiDocConverter
        (fragment [HTMLElement (Some ''DIV'') [(''class'', ''admonitionblock warning'')]
             [''admonitionblock'', ''warning'']
           [HTMLElement (Some ''TABLE'') [] [] [HTMLElement (Some ''TR'') [] []
              [HTMLElement (Some ''TD'') [(''class'', ''icon'')] [''icon'']
                 [HTMLElement (Some ''I'') [(''class'', ''fa icon-warning''), (''title'', ''Warning'')]
                    [''fa'', ''icon-warning''] []],
               HTMLElement (Some ''TD'') [(''class'', ''content'')] [''content'']
                 [TextNode '' Be careful. '']]]]])
      = Inr (''[WARNING]\<newline>====\<newline>Be careful.\<newline>====\<newline>\<newline>'', HtmlToAsciiDocConverter)
   \<and> convert HtmlToAsciiDocConverter
        (fragment [HTMLElement (Some ''DIV'') [(''class'', ''admonitionblock warning'')]
             [''admonitionblock'', ''warning'']
           [HTMLElement (Some ''TABLE'') [] [] [HTMLElement (Some ''TR'') [] []
              [HTMLElement (Some ''TD'') [(''class'', ''icon'')] [''icon'']
                 [HTMLElement (Some ''I'') [(''class'', ''fa icon-warning''), (''title'', ''Warning'')]
                    [''fa'', ''icon-warning''] []],
               HTMLElement (Some ''TD'') [] [] [TextNode '' Be careful. '']]]]])
      = Inr ([], HtmlToAsciiDocConverter)
   \<and> convert HtmlToAsciiDocConverter
        (fragment [HTMLElement (Some ''DIV'') [(''class'', ''admonitionblock'')] [''admonitionblock'']
           [HTMLElement (Some ''DIV'') [(''class'', ''content'')] [''content'']
              [HTMLElement (Some ''I'') [(''title'', ''Tip'')] [] [TextNode ''x''], TextNode '' y'']]])
      = Inr (''[NOTE]\<newline>====\<newline>_x_ y\<newline>====\<newline>\<newline>'', HtmlToAsciiDocConverter)
   \<and> convert HtmlToAsciiDocConverter
        (fragment [HTMLElement (Some ''DIV'') [(''class'', ''admonitionblock'')] [''admonitionblock'']
           [HTMLElement (Some ''I'') [(''title'', ''Caution'')] [] [],
            HTMLElement (Some ''DIV'') [(''class'', ''icon'')] [''icon'']
              [HTMLElement (Some ''SPAN'') [] [] [HTMLElement (Some ''I'') [(''title'', ''Tip'')] [] []]],
            HTMLElement (Some ''DIV'') [(''class'', ''content'')] [''content''] [TextNode ''c''],
            HTMLElement (Some ''DIV'') [(''class'', ''content'')] [''content''] [TextNode ''d'']]])
      = Inr (''[TIP]\<newline>====\<newline>c\<newline>====\<newline>\<newline>'', HtmlToAsciiDocConverter)
   \<and> convert HtmlToAsciiDocConverter
        (fragment [HTMLElement (Some ''DIV'') [(''class'', ''admonitionblock'')] [''admonitionblock'']
           [HTMLElement (Some ''DIV'') [(''class'', ''icon'')] [''icon'']
              [HTMLElement (Some ''I'') [(''class'', ''fa'')] [''fa''] []],
            HTMLElement (Some ''DIV'') [(''class'', ''content'')] [''content''] [TextNode ''c'']]])
      = Inr (''[NOTE]\<newline>====\<newline>c\<newline>====\<newline>\<newline>'', HtmlToAsciiDocConverter)
   \<and> convert HtmlToAsciiDocConverter
        (fragment [HTMLElement (Some ''DIV'') [(''class'', ''admonitionblock'')] [''admonitionblock'']
           [HTMLElement (Some ''DIV'') [(''class'', ''icon'')] [''icon'']
              [HTMLElement (Some ''I'') [(''title'', [])] [] []],
            HTMLElement (Some ''DIV'') [(''class'', ''content'')] [''content''] [TextNode ''c'']]])
      = Inr (''[NOTE]\<newline>====\<newline>c\<newline>====\<newline>\<newline>'', HtmlToAsciiDocConverter)
   \<and> convert HtmlToAsciiDocConverter
        (fragment [HTMLElement (Some ''DIV'') [(''class'', ''admonitionblock'')] [''admonitionblock'']
           [HTMLElement (Some ''DIV'') [(''class'', ''icon'')] [''icon'']
              [HTMLElement (Some ''I'') [(''title'', ''Caf'' @ [CHR 0xE9])] [] []],
            HTMLElement (Some ''DIV'') [(''class'', ''content'')] [''content''] [TextNode ''c'']]])
      = Inr (''[CAF'' @ [CHR 0xC9] @ '']\<newline>====\<newline>c\<newline>====\<newline>\<newline>'', HtmlToAsciiDocConverter)"
proof -
  have none: "processNode this n = Inr ([], this)"
    if "isTag ''div'' n" and "''admonitionblock'' \<in> set (classList n)"
      and "querySelector (hasClass ''content'') n = None"
    using that by (simp add: processNode_admonition Let_def)
  have some: "processNode this n =
        Inr (''['' @ (case querySelectorIconI n of
                        None \<Rightarrow> ''NOTE''
                      | Some iconElement \<Rightarrow>
                          (case getAttribute iconElement ''title'' of
                             None \<Rightarrow> ''NOTE''
                           | Some title \<Rightarrow> if title = [] then ''NOTE'' else toUpperCase title))
             @ '']\<newline>====\<newline>'' @ trim (render this contentDiv) @ ''\<newline>====\<newline>\<newline>'', this)"
    if tag: "isTag ''div'' n" "''admonitionblock'' \<in> set (classList n)"
      and sel: "querySelector (hasClass ''content'') n = Some contentDiv"
      and depth: "0 \<le> listDepth this"
  proof -
    have label: "(case querySelectorIconI n of
                  None \<Rightarrow> ''NOTE''
                | Some iconElement \<Rightarrow>
                    (let title = orEmpty (getAttribute iconElement ''title'') in
                     if toUpperCase title \<noteq> [] then toUpperCase title else ''NOTE''))
        = (case querySelectorIconI n of
                        None \<Rightarrow> ''NOTE''
                      | Some iconElement \<Rightarrow>
                          (case getAttribute iconElement ''title'' of
                             None \<Rightarrow> ''NOTE''
                           | Some title \<Rightarrow> if title = [] then ''NOTE'' else toUpperCase title))"
      by (simp add: Let_def orEmpty_def toUpperCase_Nil split: option.split)
    have "processNode this n = processAdmonition this n"
      using tag by (rule processNode_admonition)
    also have "\<dots> = Inr (''['' @ (case querySelectorIconI n of
                  None \<Rightarrow> ''NOTE''
                | Some iconElement \<Rightarrow>
                    (let title = orEmpty (getAttribute iconElement ''title'') in
                     if toUpperCase title \<noteq> [] then toUpperCase title else ''NOTE''))
             @ '']\<newline>====\<newline>'' @ trim (render this contentDiv) @ ''\<newline>====\<newline>\<newline>'', this)"
      using sel processNode_ok[OF depth, of contentDiv] by (simp add: Let_def)
    finally show ?thesis unfolding label .
  qed
  have upper: "toUpperCase ''Warning'' = ''WARNING''"
    "toUpperCase ''abcdefghijklmnopqrstuvwxyz'' = ''ABCDEFGHIJKLMNOPQRSTUVWXYZ''"
    "toUpperCase (''Caf'' @ [CHR 0xE9]) = ''CAF'' @ [CHR 0xC9]"
    "upperCaseInRange (''Caf'' @ [CHR 0xE9])"
    by code_simp+
  have warning: "convert HtmlToAsciiDocConverter
        (fragment [HTMLElement (Some ''DIV'') [(''class'', ''admonitionblock warning'')]
             [''admonitionblock'', ''warning'']
           [HTMLElement (Some ''TABLE'') [] [] [HTMLElement (Some ''TR'') [] []
              [HTMLElement (Some ''TD'') [(''class'', ''icon'')] [''icon'']
                 [HTMLElement (Some ''I'') [(''class'', ''fa icon-warning''), (''title'', ''Warning'')]
                    [''fa'', ''icon-warning''] []],
               HTMLElement (Some ''TD'') [(''class'', ''content'')] [''content'']
                 [TextNode '' Be careful. '']]]]])
      = Inr (''[WARNING]\<newline>====\<newline>Be careful.\<newline>====\<newline>\<newline>'', HtmlToAsciiDocConverter)"
    by code_simp
  have dropped: "convert HtmlToAsciiDocConverter
        (fragment [HTMLElement (Some ''DIV'') [(''class'', ''admonitionblock warning'')]
             [''admonitionblock'', ''warning'']
           [HTMLElement (Some ''TABLE'') [] [] [HTMLElement (Some ''TR'') [] []
              [HTMLElement (Some ''TD'') [(''class'', ''icon'')] [''icon'']
                 [HTMLElement (Some ''I'') [(''class'', ''fa icon-warning''), (''title'', ''Warning'')]
                    [''fa'', ''icon-warning''] []],
               HTMLElement (Some ''TD'') [] [] [TextNode '' Be careful. '']]]]])
      = Inr ([], HtmlToAsciiDocConverter)"
    by code_simp
  have inContent: "convert HtmlToAsciiDocConverter
        (fragment [HTMLElement (Some ''DIV'') [(''class'', ''admonitionblock'')] [''admonitionblock'']
           [HTMLElement (Some ''DIV'') [(''class'', ''content'')] [''content'']
              [HTMLElement (Some ''I'') [(''title'', ''Tip'')] [] [TextNode ''x''], TextNode '' y'']]])
      = Inr (''[NOTE]\<newline>====\<newline>_x_ y\<newline>====\<newline>\<newline>'', HtmlToAsciiDocConverter)"
    by code_simp
  have below: "convert HtmlToAsciiDocConverter
        (fragment [HTMLElement (Some ''DIV'') [(''class'', ''admonitionblock'')] [''admonitionblock'']
           [HTMLElement (Some ''I'') [(''title'', ''Caution'')] [] [],
            HTMLElement (Some ''DIV'') [(''class'', ''icon'')] [''icon'']
              [HTMLElement (Some ''SPAN'') [] [] [HTMLElement (Some ''I'') [(''title'', ''Tip'')] [] []]],
            HTMLElement (Some ''DIV'') [(''class'', ''content'')] [''content''] [TextNode ''c''],
            HTMLElement (Some ''DIV'') [(''class'', ''content'')] [''content''] [TextNode ''d'']]])
      = Inr (''[TIP]\<newline>====\<newline>c\<newline>====\<newline>\<newline>'', HtmlToAsciiDocConverter)"
    by code_simp
  have noTitle: "convert HtmlToAsciiDocConverter
        (fragment [HTMLElement (Some ''DIV'') [(''class'', ''admonitionblock'')] [''admonitionblock'']
           [HTMLElement (Some ''DIV'') [(''class'', ''icon'')] [''icon'']
              [HTMLElement (Some ''I'') [(''class'', ''fa'')] [''fa''] []],
            HTMLElement (Some ''DIV'') [(''class'', ''content'')] [''content''] [TextNode ''c'']]])
      = Inr (''[NOTE]\<newline>====\<newline>c\<newline>====\<newline>\<newline>'', HtmlToAsciiDocConverter)"
    by code_simp
  have emptyTitle: "convert HtmlToAsciiDocConverter
        (fragment [HTMLElement (Some ''DIV'') [(''class'', ''admonitionblock'')] [''admonitionblock'']
           [HTMLElement (Some ''DIV'') [(''class'', ''icon'')] [''icon'']
              [HTMLElement (Some ''I'') [(''title'', [])] [] []],
            HTMLElement (Some ''DIV'') [(''class'', ''content'')] [''content''] [TextNode ''c'']]])
      = Inr (''[NOTE]\<newline>====\<newline>c\<newline>====\<newline>\<newline>'', HtmlToAsciiDocConverter)"
    by code_simp
  have accent: "convert HtmlToAsciiDocConverter
        (fragment [HTMLElement (Some ''DIV'') [(''class'', ''admonitionblock'')] [''admonitionblock'']
           [HTMLElement (Some ''DIV'') [(''class'', ''icon'')] [''icon'']
              [HTMLElement (Some ''I'') [(''title'', ''Caf'' @ [CHR 0xE9])] [] []],
            HTMLElement (Some ''DIV'') [(''class'', ''content'')] [''content''] [TextNode ''c'']]])
      = Inr (''[CAF'' @ [CHR 0xC9] @ '']\<newline>====\<newline>c\<newline>====\<newline>\<newline>'', HtmlToAsciiDocConverter)"
    by code_simp
  from none some upper warning dropped inContent below noTitle emptyTitle accent
  show ?thesis by (intro conjI impI)
qed

theorem admonition_block_witness:
  "isTag ''div'' (HTMLElement (Some ''DIV'') [(''class'', ''admonitionblock tip'')]
       [''admonitionblock'', ''tip'']
       [HTMLElement (Some ''SPAN'') [(''class'', ''icon'')] [''icon'']
          [HTMLElement (Some ''I'') [(''title'', ''Tip'')] [] []]])
   \<and> ''admonitionblock'' \<in> set (classList (HTMLElement (Some ''DIV'') [(''class'', ''admonitionblock tip'')]
       [''admonitionblock'', ''tip'']
       [HTMLElement (Some ''SPAN'') [(''class'', ''icon'')] [''icon'']
          [HTMLElement (Some ''I'') [(''title'', ''Tip'')] [] []]]))
   \<and> querySelector (hasClass ''content'') (HTMLElement (Some ''DIV'') [(''class'', ''admonitionblock tip'')]
       [''admonitionblock'', ''tip'']
       [HTMLElement (Some ''SPAN'') [(''class'', ''icon'')] [''icon'']
          [HTMLElement (Some ''I'') [(''title'', ''Tip'')] [] []]]) = None
   \<and> processNode HtmlToAsciiDocConverter (HTMLElement (Some ''DIV'') [(''class'', ''admonitionblock tip'')]
       [''admonitionblock'', ''tip'']
       [HTMLElement (Some ''SPAN'') [(''class'', ''icon'')] [''icon'']
          [HTMLElement (Some ''I'') [(''title'', ''Tip'')] [] []]])
       = Inr ([], HtmlToAsciiDocConverter)
   \<and> isTag ''div'' (HTMLElement (Some ''DIV'') [(''class'', ''admonitionblock tip'')]
       [''admonitionblock'', ''tip'']
       [HTMLElement (Some ''SPAN'') [(''class'', ''icon'')] [''icon'']
          [HTMLElement (Some ''I'') [(''title'', ''Tip'')] [] []],
        HTMLElement (Some ''P'') [(''class'', ''content'')] [''content''] [TextNode ''Hint '']])
   \<and> ''admonitionblock'' \<in> set (classList (HTMLElement (Some ''DIV'') [(''class'', ''admonitionblock tip'')]
       [''admonitionblock'', ''tip'']
       [HTMLElement (Some ''SPAN'') [(''class'', ''icon'')] [''icon'']
          [HTMLElement (Some ''I'') [(''title'', ''Tip'')] [] []],
        HTMLElement (Some ''P'') [(''class'', ''content'')] [''content''] [TextNode ''Hint '']]))
   \<and> querySelector (hasClass ''content'') (HTMLElement (Some ''DIV'') [(''class'', ''admonitionblock tip'')]
       [''admonitionblock'', ''tip'']
       [HTMLElement (Some ''SPAN'') [(''class'', ''icon'')] [''icon'']
          [HTMLElement (Some ''I'') [(''title'', ''Tip'')] [] []],
        HTMLElement (Some ''P'') [(''class'', ''content'')] [''content''] [TextNode ''Hint '']])
      = Some (HTMLElement (Some ''P'') [(''class'', ''content'')] [''content''] [TextNode ''Hint ''])
   \<and> 0 \<le> listDepth HtmlToAsciiDocConverter
   \<and> upperCaseInRange ''Tip''
   \<and> processNode HtmlToAsciiDocConverter (HTMLElement (Some ''DIV'') [(''class'', ''admonitionblock tip'')]
       [''admonitionblock'', ''tip'']
       [HTMLElement (Some ''SPAN'') [(''class'', ''icon'')] [''icon'']
          [HTMLElement (Some ''I'') [(''title'', ''Tip'')] [] []],
        HTMLElement (Some ''P'') [(''class'', ''content'')] [''content''] [TextNode ''Hint '']])
       = Inr (''[TIP]\<newline>====\<newline>Hint\<newline>====\<newline>\<newline>'', HtmlToAsciiDocConverter)"
proof -
  let ?icon = "HTMLElement (Some ''SPAN'') [(''class'', ''icon'')] [''icon'']
          [HTMLElement (Some ''I'') [(''title'', ''Tip'')] [] []]"
  let ?content = "HTMLElement (Some ''P'') [(''class'', ''content'')] [''content''] [TextNode ''Hint '']"
  let ?bare = "HTMLElement (Some ''DIV'') [(''class'', ''admonitionblock tip'')]
       [''admonitionblock'', ''tip''] [?icon]"
  let ?block = "HTMLElement (Some ''DIV'') [(''class'', ''admonitionblock tip'')]
       [''admonitionblock'', ''tip''] [?icon, ?content]"
  have bare: "isTag ''div'' ?bare" "''admonitionblock'' \<in> set (classList ?bare)"
    "querySelector (hasClass ''content'') ?bare = None"
    by code_simp+
  have block: "isTag ''div'' ?block" "''admonitionblock'' \<in> set (classList ?block)"
    "querySelector (hasClass ''content'') ?block = Some ?content"
    by code_simp+
  have depth: "0 \<le> listDepth HtmlToAsciiDocConverter"
    by (simp add: HtmlToAsciiDocConverter_def)
  have label: "(case querySelectorIconI ?block of
                        None \<Rightarrow> ''NOTE''
                      | Some iconElement \<Rightarrow>
                          (case getAttribute iconElement ''title'' of
                             None \<Rightarrow> ''NOTE''
                           | Some title \<Rightarrow> if title = [] then ''NOTE'' else toUpperCase title))
      = ''TIP''"
    by code_simp
  have hint: "trim (render HtmlToAsciiDocConverter ?content) = ''Hint''" by code_simp
  have range: "upperCaseInRange (case querySelectorIconI ?block of
                          None \<Rightarrow> []
                        | Some iconElement \<Rightarrow> orEmpty (getAttribute iconElement ''title''))"
    by code_simp
  from admonition_block[where n = ?bare and this = HtmlToAsciiDocConverter] bare
  have first: "processNode HtmlToAsciiDocConverter ?bare = Inr ([], HtmlToAsciiDocConverter)"
    by blast
  from admonition_block[where n = ?block and this = HtmlToAsciiDocConverter and contentDiv = ?content]
    block depth range
  have "processNode HtmlToAsciiDocConverter ?block =
        Inr (''['' @ (case querySelectorIconI ?block of
                        None \<Rightarrow> ''NOTE''
                      | Some iconElement \<Rightarrow>
                          (case getAttribute iconElement ''title'' of
                             None \<Rightarrow> ''NOTE''
                           | Some title \<Rightarrow> if title = [] then ''NOTE'' else toUpperCase title))
             @ '']\<newline>====\<newline>'' @ trim (render HtmlToAsciiDocConverter ?content)
             @ ''\<newline>====\<newline>\<newline>'', HtmlToAsciiDocConverter)"
    by blast
  then have second: "processNode HtmlToAsciiDocConverter ?block
       = Inr (''[TIP]\<newline>====\<newline>Hint\<newline>====\<newline>\<newline>'', HtmlToAsciiDocConverter)"
    unfolding label hint by simp
  have tip: "upperCaseInRange ''Tip''" by code_simp
  from bare block depth tip first second show ?thesis by (intro conjI)
qed

subsection \<open>Totality and the fall-backs\<close>




subsection \<open>Enough stack, and too little\<close>

lemma foldr_max_ge: "x \<in> set xs \<Longrightarrow> x \<le> foldr max xs (0::nat)"
  by (induction xs) auto

lemma nesting_child: "c \<in> set (childNodes n) \<Longrightarrow> nesting c < nesting n"
  by (cases n) (auto simp: less_Suc_eq_le intro: foldr_max_ge)

lemma nesting_descendants: "x \<in> set (descendants n) \<Longrightarrow> nesting x < nesting n"
proof (induction n arbitrary: x)
  case (TextNode t)
  then show ?case by simp
next
  case (HTMLElement tg as cl cs)
  then obtain c where c: "c \<in> set cs" and x: "x = c \<or> x \<in> set (descendants c)"
    by (auto split: if_splits)
  have "nesting c < nesting (HTMLElement tg as cl cs)"
    using c nesting_child[of c "HTMLElement tg as cl cs"] by simp
  moreover have "nesting x \<le> nesting c"
    using x HTMLElement.IH[OF c, of x] by auto
  ultimately show ?case by simp
qed

lemma nesting_querySelector: "querySelector sel n = Some x \<Longrightarrow> nesting x < nesting n"
  by (auto simp: querySelector_def find_Some_iff intro: nesting_descendants)

lemma nesting_querySelectorAll: "x \<in> set (querySelectorAll sel n) \<Longrightarrow> nesting x < nesting n"
  by (auto simp: querySelectorAll_def intro: nesting_descendants)

lemma getTextContentEach_each:
  "(\<And>c. c \<in> set cs \<Longrightarrow> isElement c \<Longrightarrow> getTextContentOn stack this c = Inr (getTextContent c)) \<Longrightarrow>
   getTextContentEach stack this cs =
     Inr (concat (map (\<lambda>child. case child of TextNode t \<Rightarrow> t
                                   | HTMLElement _ _ _ _ \<Rightarrow> getTextContent child) cs))"
proof (induction cs)
  case Nil
  show ?case by simp
next
  case (Cons c cs)
  then show ?case
    by (cases c) (simp_all add: isElement_def del: getTextContent.simps getTextContentOn.simps)
qed

lemma getTextContentOn_enough:
  "nesting n < stack \<Longrightarrow> getTextContentOn stack this n = Inr (getTextContent n)"
proof (induction n arbitrary: stack)
  case (TextNode t)
  then show ?case by (cases stack) simp_all
next
  case (HTMLElement tg as cl cs)
  then obtain k where k: "stack = Suc k" by (cases stack) auto
  have "getTextContentOn k this c = Inr (getTextContent c)" if "c \<in> set cs" for c
  proof -
    have "nesting c < nesting (HTMLElement tg as cl cs)"
      using that nesting_child[of c "HTMLElement tg as cl cs"] by simp
    with HTMLElement.prems k have "nesting c < k" by simp
    then show ?thesis using HTMLElement.IH[OF that] by blast
  qed
  then show ?case using getTextContentEach_each[of cs k this] by (simp add: k)
qed


lemma embed_simps:
  "embed this (Inl e) = Inl (e, this)"
  "embed this (Inr x) = Inr x"
  by (simp_all add: embed_def)

lemma cellLineOn_cell:
  "getTextContentOn stack this c = Inr (getTextContent c) \<Longrightarrow>
   cellLineOn stack this c = embed this (cellLine c)"
  by (simp add: cellLineOn_def cellLine_def embed_def Let_def split: option.split)

lemma cellLinesOn_each:
  "(\<And>c. c \<in> set cs \<Longrightarrow> getTextContentOn stack this c = Inr (getTextContent c)) \<Longrightarrow>
   cellLinesOn stack this cs = embed this (cellLines cs)"
proof (induction cs)
  case Nil
  show ?case by (simp add: embed_def)
next
  case (Cons c cs)
  have "cellLineOn stack this c = embed this (cellLine c)"
    using Cons.prems by (intro cellLineOn_cell) simp
  moreover have "cellLinesOn stack this cs = embed this (cellLines cs)"
    by (rule Cons.IH) (simp add: Cons.prems)
  ultimately show ?case by (simp add: embed_def split: sum.split)
qed

lemma rowLinesOn_each:
  "(\<And>r c. r \<in> set rows \<Longrightarrow> c \<in> set (descendants r)
      \<Longrightarrow> getTextContentOn stack this c = Inr (getTextContent c)) \<Longrightarrow>
   rowLinesOn stack this rows = embed this (rowLines rows)"
proof (induction rows)
  case Nil
  show ?case by (simp add: embed_def)
next
  case (Cons r rows)
  have "cellLinesOn stack this (querySelectorAll (\<lambda>n. isTag ''th'' n \<or> isTag ''td'' n) r)
      = embed this (cellLines (querySelectorAll (\<lambda>n. isTag ''th'' n \<or> isTag ''td'' n) r))"
    using Cons.prems by (intro cellLinesOn_each) (auto simp: querySelectorAll_def)
  moreover have "rowLinesOn stack this rows = embed this (rowLines rows)"
  proof (rule Cons.IH)
    fix r' c
    assume "r' \<in> set rows" "c \<in> set (descendants r')"
    then show "getTextContentOn stack this c = Inr (getTextContent c)"
      using Cons.prems[of r' c] by simp
  qed
  ultimately show ?case by (simp add: embed_def split: sum.split)
qed

lemma processTableOn_enough:
  assumes "nesting n \<le> stack"
  shows "processTableOn (Suc stack) this n = embed this (processTable n)"
proof -
  have "getTextContentOn stack this c = Inr (getTextContent c)"
    if "r \<in> set (querySelectorAll (isTag ''tr'') n)" "c \<in> set (descendants r)" for r c
  proof -
    have "nesting c < nesting r" using that(2) by (rule nesting_descendants)
    moreover have "nesting r < nesting n" using that(1) by (rule nesting_querySelectorAll)
    ultimately have "nesting c < stack" using assms by simp
    then show ?thesis by (rule getTextContentOn_enough)
  qed
  then have "rowLinesOn stack this (querySelectorAll (isTag ''tr'') n)
      = embed this (rowLines (querySelectorAll (isTag ''tr'') n))"
    by (intro rowLinesOn_each)
  then show ?thesis
    by (simp add: processTable_def Let_def embed_def split: sum.split)
qed

lemma processChildNodesOn_each:
  "(\<And>c. c \<in> set ns \<Longrightarrow> processNodeOn stack this c = Inr (render this c, this)) \<Longrightarrow>
   processChildNodesOn stack this ns = Inr (concat (map (render this) ns), this)"
  by (induction ns) simp_all

lemma processItemsOn_each:
  "(\<And>c. c \<in> set ns \<Longrightarrow> processNodeOn stack this c = Inr (render this c, this)) \<Longrightarrow>
   processItemsOn stack this prefix ns =
     Inr (concat (map (\<lambda>item. prefix @ '' '' @ trim (render this item) @ ''\<newline>'') ns), this)"
  by (induction ns) (simp_all add: Let_def)

lemma if_embed:
  "(c \<Longrightarrow> a = embed this a') \<Longrightarrow> (\<not> c \<Longrightarrow> b = embed this b')
   \<Longrightarrow> (if c then a else b) = embed this (if c then a' else b')"
  by simp

lemma processNodeOn_embed:
  "3 * nesting n < stack \<Longrightarrow> 0 \<le> listDepth this \<Longrightarrow>
   processNodeOn stack this n = embed this (processNode this n)"
proof (induction n arbitrary: this stack rule: measure_induct_rule[of size])
  case (less n)
  show ?case
  proof (cases n)
    case (TextNode t)
    then show ?thesis using less.prems by (cases stack) (simp_all add: embed_def)
  next
    case (HTMLElement tg as cl cs)
    then have m: "0 < nesting n" by simp
    from less.prems obtain k where k: "stack = Suc (Suc (Suc k))" and room: "3 * nesting n \<le> k + 2"
      using m by (cases stack; cases "stack - 1"; cases "stack - 2") auto
    have plain: "getTextContentOn (Suc (Suc k)) this x = Inr (getTextContent x)"
      if "nesting x \<le> nesting n" for x
      using that room m by (intro getTextContentOn_enough) simp
    have sub: "processNodeOn j this' c = Inr (render this' c, this')"
      if "nesting c < nesting n" "size c < size n" "0 \<le> listDepth this'" "k \<le> j" for c this' j
    proof -
      have "3 * nesting c < j" using room that(1,4) by simp
      then have "processNodeOn j this' c = embed this' (processNode this' c)"
        using less.IH[OF that(2)] that(3) by blast
      then show ?thesis using processNode_ok[OF that(3), of c] by (simp add: embed_def)
    qed
    have kids: "processNodeOn j this' c = Inr (render this' c, this')"
      if "c \<in> set (childNodes n)" "0 \<le> listDepth this'" "k \<le> j" for c this' j
      using sub[OF nesting_child[OF that(1)] size_child[OF that(1)] that(2,3)] .
    let ?ch = "concat (map (render this) (childNodes n))"
    have children: "processChildren this n = Inr (?ch, this)"
      using processChildNodes_ok[OF less.prems(2), of "childNodes n"] by simp
    have childrenOn: "processChildrenOn (Suc j) this n = Inr (?ch, this)" if "k \<le> j" for j
      using processChildNodesOn_each[of "childNodes n" j this] kids that less.prems(2) by simp
    have list: "\<exists>s. processList this n marker = Inr (s, this)
        \<and> processListOn (Suc (Suc k)) this n marker = Inr (s, this)" for marker
    proof -
      let ?this1 = "this\<lparr>listDepth := listDepth this + 1\<rparr>"
      have depth: "0 \<le> listDepth ?this1" using less.prems by simp
      then have "\<And>c. c \<in> set (scopeChildren ''li'' n)
          \<Longrightarrow> processNodeOn (Suc k) ?this1 c = Inr (render ?this1 c, ?this1)"
        using kids by (simp add: scopeChildren_def)
      from processItemsOn_each[OF this] processItems_ok[OF depth] less.prems
      show ?thesis by (simp add: Let_def repeat_def)
    qed
    have quote: "\<exists>s. processBlockquote this n = Inr (s, this)
        \<and> processBlockquoteOn (Suc (Suc k)) this n = Inr (s, this)"
      using children childrenOn[of k]
      by (simp add: Let_def del: processChildrenOn.simps processChildren.simps)
    have admon: "\<exists>s. processAdmonition this n = Inr (s, this)
        \<and> processAdmonitionOn (Suc (Suc k)) this n = Inr (s, this)"
    proof (cases "querySelector (hasClass ''content'') n")
      case None
      then show ?thesis by (simp add: Let_def)
    next
      case (Some c)
      have "processNodeOn (Suc k) this c = Inr (render this c, this)"
        using sub[OF nesting_querySelector[OF Some] size_querySelector[OF Some] less.prems(2)]
        by simp
      with Some processNode_ok[OF less.prems(2), of c] show ?thesis by (simp add: Let_def)
    qed
    obtain s where s: "processTable n = Inr s" using processTable_ok by blast
    have table: "processTableOn (Suc (Suc k)) this n = Inr s"
      using processTableOn_enough[of n "Suc k" this] room m s by (simp add: embed_def)
    have code: "nesting c \<le> nesting n" if "querySelector sel n = Some c" for sel c
      using nesting_querySelector[OF that] by simp
    have language: "extractLanguageOn (Suc (Suc k)) this c = Inr (extractLanguage c)" for c
      by simp
    obtain l1 where l1: "processList this n ''*'' = Inr (l1, this)"
        "processListOn (Suc (Suc k)) this n ''*'' = Inr (l1, this)"
      using list by blast
    obtain l2 where l2: "processList this n ''.'' = Inr (l2, this)"
        "processListOn (Suc (Suc k)) this n ''.'' = Inr (l2, this)"
      using list by blast
    obtain q where q: "processBlockquote this n = Inr (q, this)"
        "processBlockquoteOn (Suc (Suc k)) this n = Inr (q, this)"
      using quote by blast
    obtain a where a: "processAdmonition this n = Inr (a, this)"
        "processAdmonitionOn (Suc (Suc k)) this n = Inr (a, this)"
      using admon by blast
    show ?thesis
      unfolding HTMLElement k processNodeOn.simps processNode.simps Let_def
      apply (intro if_embed)
      using plain children childrenOn[of "Suc k"] l1 l2 q a table s code language
      unfolding HTMLElement k
      apply (simp_all add: headingOn_def embed_def
          del: processChildren.simps processList.simps processBlockquote.simps
            processAdmonition.simps processChildrenOn.simps processListOn.simps
            processBlockquoteOn.simps processAdmonitionOn.simps processTableOn.simps
            getTextContentOn.simps getTextContent.simps nesting.simps extractLanguageOn.simps
          split: option.split)
      done
  qed
qed

lemma processNodeOn_enough:
  "stackNeed n \<le> stack \<Longrightarrow> 0 \<le> listDepth this \<Longrightarrow>
   processNodeOn stack this n = Inr (render this n, this)"
  using processNodeOn_embed[of n stack this] processNode_ok[of this n]
  by (simp add: stackNeed_def embed_def)

lemma nestedSpans_overflow:
  "stack \<le> 2 * depth \<Longrightarrow> processNodeOn stack this (nestedSpans depth) = Inl (RangeError, this)"
proof (induction depth arbitrary: stack)
  case 0
  then show ?case by simp
next
  case (Suc depth)
  have lower: "toLowerCase ''SPAN'' = ''span''" by code_simp
  show ?case
  proof (cases stack)
    case 0
    then show ?thesis by simp
  next
    case (Suc k)
    show ?thesis
    proof (cases k)
      case 0
      then show ?thesis using Suc by (simp add: lower)
    next
      case (Suc j)
      then have "j \<le> 2 * depth" using \<open>stack = Suc k\<close> Suc.prems by simp
      then have "processNodeOn j this (nestedSpans depth) = Inl (RangeError, this)"
        by (rule Suc.IH)
      then show ?thesis using Suc \<open>stack = Suc k\<close> by (simp add: lower)
    qed
  qed
qed





subsection \<open>The depth counter\<close>

lemma listDepthWritesEach_each:
  "(\<And>c. c \<in> set ns \<Longrightarrow>
      \<exists>ws. listDepthWrites this c = Inr (ws, this) \<and> (\<forall>d \<in> set ws. listDepth this \<le> d)) \<Longrightarrow>
   \<exists>ws. listDepthWritesEach this ns = Inr (ws, this) \<and> (\<forall>d \<in> set ws. listDepth this \<le> d)"
proof (induction ns)
  case Nil
  show ?case by simp
next
  case (Cons c cs)
  from Cons.prems[of c] obtain ws where
    c: "listDepthWrites this c = Inr (ws, this)" "\<forall>d \<in> set ws. listDepth this \<le> d"
    by auto
  from Cons.IH Cons.prems obtain ws' where
    cs: "listDepthWritesEach this cs = Inr (ws', this)" "\<forall>d \<in> set ws'. listDepth this \<le> d"
    by auto
  from c cs show ?case by auto
qed

lemma if_writes:
  "(c \<Longrightarrow> \<exists>ws. a = Inr (ws, this) \<and> (\<forall>d \<in> set ws. listDepth this \<le> d)) \<Longrightarrow>
   (\<not> c \<Longrightarrow> \<exists>ws. b = Inr (ws, this) \<and> (\<forall>d \<in> set ws. listDepth this \<le> d)) \<Longrightarrow>
   \<exists>ws. (if c then a else b) = Inr (ws, (this::converter)) \<and> (\<forall>d \<in> set ws. listDepth this \<le> (d::int))"
  by simp

lemma listDepthWrites_list:
  assumes depth: "0 \<le> listDepth this"
    and items: "\<And>c. c \<in> set (scopeChildren ''li'' n) \<Longrightarrow>
      \<exists>ws. listDepthWrites (this\<lparr>listDepth := listDepth this + 1\<rparr>) c
              = Inr (ws, this\<lparr>listDepth := listDepth this + 1\<rparr>)
           \<and> (\<forall>d \<in> set ws. listDepth this + 1 \<le> d)"
  shows "\<exists>ws. (case repeat marker (listDepth (this\<lparr>listDepth := listDepth this + 1\<rparr>)) of
           Inl e \<Rightarrow> Inl e
         | Inr prefix \<Rightarrow>
             (case listDepthWritesEach (this\<lparr>listDepth := listDepth this + 1\<rparr>) (scopeChildren ''li'' n) of
                Inl e \<Rightarrow> Inl e
              | Inr (ws, this2) \<Rightarrow>
                  Inr ([listDepth (this\<lparr>listDepth := listDepth this + 1\<rparr>)] @ ws @ [listDepth this2 - 1],
                       this2\<lparr>listDepth := listDepth this2 - 1\<rparr>)))
          = Inr ([listDepth this + 1] @ ws @ [listDepth this], this)
        \<and> (\<forall>d \<in> set ws. listDepth this + 1 \<le> d)"
proof -
  let ?this1 = "this\<lparr>listDepth := listDepth this + 1\<rparr>"
  from listDepthWritesEach_each[of "scopeChildren ''li'' n" ?this1] items
  obtain ws where ws: "listDepthWritesEach ?this1 (scopeChildren ''li'' n) = Inr (ws, ?this1)"
    "\<forall>d \<in> set ws. listDepth this + 1 \<le> d"
    by auto
  with depth show ?thesis by (simp add: repeat_def)
qed

lemma listDepthWrites_ok:
  "0 \<le> listDepth this \<Longrightarrow>
   \<exists>ws. listDepthWrites this n = Inr (ws, this) \<and> (\<forall>d \<in> set ws. listDepth this \<le> d)"
proof (induction n arbitrary: this rule: measure_induct_rule[of size])
  case (less n)
  show ?case
  proof (cases n)
    case (TextNode t)
    then show ?thesis by simp
  next
    case (HTMLElement tg as cl cs)
    have kids: "\<And>c this'. c \<in> set (childNodes n) \<Longrightarrow> 0 \<le> listDepth this' \<Longrightarrow>
        \<exists>ws. listDepthWrites this' c = Inr (ws, this') \<and> (\<forall>d \<in> set ws. listDepth this' \<le> d)"
      using less.IH size_child by blast
    have children: "\<exists>ws. listDepthWritesEach this cs = Inr (ws, this)
        \<and> (\<forall>d \<in> set ws. listDepth this \<le> d)"
      using listDepthWritesEach_each[of cs this] kids less.prems HTMLElement by simp
    have "\<And>c. c \<in> set (scopeChildren ''li'' n) \<Longrightarrow>
      \<exists>ws. listDepthWrites (this\<lparr>listDepth := listDepth this + 1\<rparr>) c
              = Inr (ws, this\<lparr>listDepth := listDepth this + 1\<rparr>)
           \<and> (\<forall>d \<in> set ws. listDepth this + 1 \<le> d)"
      using kids[of _ "this\<lparr>listDepth := listDepth this + 1\<rparr>"] less.prems
      by (simp add: scopeChildren_def)
    then have list: "\<exists>ws. (case repeat marker (listDepth (this\<lparr>listDepth := listDepth this + 1\<rparr>)) of
           Inl e \<Rightarrow> Inl e
         | Inr prefix \<Rightarrow>
             (case listDepthWritesEach (this\<lparr>listDepth := listDepth this + 1\<rparr>) (scopeChildren ''li'' n) of
                Inl e \<Rightarrow> Inl e
              | Inr (ws, this2) \<Rightarrow>
                  Inr ([listDepth (this\<lparr>listDepth := listDepth this + 1\<rparr>)] @ ws @ [listDepth this2 - 1],
                       this2\<lparr>listDepth := listDepth this2 - 1\<rparr>)))
          = Inr (ws, this) \<and> (\<forall>d \<in> set ws. listDepth this \<le> d)" for marker
    proof -
      assume items: "\<And>c. c \<in> set (scopeChildren ''li'' n) \<Longrightarrow>
        \<exists>ws. listDepthWrites (this\<lparr>listDepth := listDepth this + 1\<rparr>) c
              = Inr (ws, this\<lparr>listDepth := listDepth this + 1\<rparr>)
           \<and> (\<forall>d \<in> set ws. listDepth this + 1 \<le> d)"
      from listDepthWrites_list[where marker = marker, OF less.prems items]
      obtain ws where eq: "(case repeat marker (listDepth (this\<lparr>listDepth := listDepth this + 1\<rparr>)) of
           Inl e \<Rightarrow> Inl e
         | Inr prefix \<Rightarrow>
             (case listDepthWritesEach (this\<lparr>listDepth := listDepth this + 1\<rparr>) (scopeChildren ''li'' n) of
                Inl e \<Rightarrow> Inl e
              | Inr (ws, this2) \<Rightarrow>
                  Inr ([listDepth (this\<lparr>listDepth := listDepth this + 1\<rparr>)] @ ws @ [listDepth this2 - 1],
                       this2\<lparr>listDepth := listDepth this2 - 1\<rparr>)))
          = Inr ([listDepth this + 1] @ ws @ [listDepth this], this)"
        and ge: "\<forall>d \<in> set ws. listDepth this + 1 \<le> d"
        by blast
      from ge have all: "\<forall>d \<in> set ([listDepth this + 1] @ ws @ [listDepth this]). listDepth this \<le> d"
        by auto
      show ?thesis
      proof (intro exI conjI)
        show "(case repeat marker (listDepth (this\<lparr>listDepth := listDepth this + 1\<rparr>)) of
           Inl e \<Rightarrow> Inl e
         | Inr prefix \<Rightarrow>
             (case listDepthWritesEach (this\<lparr>listDepth := listDepth this + 1\<rparr>) (scopeChildren ''li'' n) of
                Inl e \<Rightarrow> Inl e
              | Inr (ws, this2) \<Rightarrow>
                  Inr ([listDepth (this\<lparr>listDepth := listDepth this + 1\<rparr>)] @ ws @ [listDepth this2 - 1],
                       this2\<lparr>listDepth := listDepth this2 - 1\<rparr>)))
          = Inr ([listDepth this + 1] @ ws @ [listDepth this], this)"
          by (rule eq)
        show "\<forall>d \<in> set ([listDepth this + 1] @ ws @ [listDepth this]). listDepth this \<le> d"
          by (rule all)
      qed
    qed
    have admon: "\<exists>ws. (case querySelector (hasClass ''content'') n of
           None \<Rightarrow> Inr ([], this)
         | Some contentDiv \<Rightarrow> listDepthWrites this contentDiv) = Inr (ws, this)
         \<and> (\<forall>d \<in> set ws. listDepth this \<le> d)"
    proof (cases "querySelector (hasClass ''content'') n")
      case None
      then show ?thesis by simp
    next
      case (Some c)
      then show ?thesis using less.IH[of c this] less.prems size_querySelector by simp
    qed
    obtain s where table: "processTable n = Inr s" using processTable_ok by blast
    show ?thesis
      unfolding HTMLElement listDepthWrites.simps Let_def
    proof (intro if_writes, goal_cases)
      case 1 show ?case by simp
    next
      case 2 show ?case by (rule list[unfolded HTMLElement])
    next
      case 3 show ?case using table unfolding HTMLElement by simp
    next
      case 4 show ?case by (rule admon[unfolded HTMLElement])
    next
      case 5 show ?case by simp
    next
      case 6 show ?case by (rule children)
    qed
  qed
qed


lemma listDepthWrites_list_node:
  assumes tag: "isTag ''ul'' n \<or> isTag ''ol'' n" and depth: "0 \<le> listDepth this"
  shows "\<exists>ws. listDepthWrites this n = Inr ([listDepth this + 1] @ ws @ [listDepth this], this)
          \<and> (\<forall>d \<in> set ws. listDepth this + 1 \<le> d)"
proof -
  from tag obtain t as cl cs where n: "n = HTMLElement (Some t) as cl cs"
    and t: "toLowerCase t = ''ul'' \<or> toLowerCase t = ''ol''"
    by (auto elim: isTag_element)
  have items: "\<And>c. c \<in> set (scopeChildren ''li'' n) \<Longrightarrow>
      \<exists>ws. listDepthWrites (this\<lparr>listDepth := listDepth this + 1\<rparr>) c
              = Inr (ws, this\<lparr>listDepth := listDepth this + 1\<rparr>)
           \<and> (\<forall>d \<in> set ws. listDepth this + 1 \<le> d)"
    using listDepthWrites_ok[of "this\<lparr>listDepth := listDepth this + 1\<rparr>"] depth by simp
  have "listDepthWrites this n =
      (case repeat (if toLowerCase t = ''ul'' then ''*'' else ''.'')
              (listDepth (this\<lparr>listDepth := listDepth this + 1\<rparr>)) of
           Inl e \<Rightarrow> Inl e
         | Inr prefix \<Rightarrow>
             (case listDepthWritesEach (this\<lparr>listDepth := listDepth this + 1\<rparr>) (scopeChildren ''li'' n) of
                Inl e \<Rightarrow> Inl e
              | Inr (ws, this2) \<Rightarrow>
                  Inr ([listDepth (this\<lparr>listDepth := listDepth this + 1\<rparr>)] @ ws @ [listDepth this2 - 1],
                       this2\<lparr>listDepth := listDepth this2 - 1\<rparr>)))"
    unfolding n using t by (auto simp: Let_def textOnlyTags_def)
  with listDepthWrites_list[where marker = "if toLowerCase t = ''ul'' then ''*'' else ''.''",
      OF depth items]
  show ?thesis by simp
qed

text \<open>
  The record of the assignments follows the render: from every converter state both throw
  the same error, or both return, and then with the same converter.
\<close>

lemma outcome_simps:
  "outcome (Inl e) = Inl e" "outcome (Inr (x, this)) = Inr this"
  by (simp_all add: outcome_def)

lemma outcome_Inl: "outcome r = Inl e \<Longrightarrow> r = Inl e"
  by (auto simp: outcome_def split: sum.splits)

lemma outcome_Inr: "outcome r = Inr this \<Longrightarrow> \<exists>x. r = Inr (x, this)"
  by (auto simp: outcome_def split: sum.splits)

lemma writesEach_children:
  "(\<And>c this'. c \<in> set ns \<Longrightarrow>
      outcome (listDepthWrites this' c) = outcome (processNode this' c)) \<Longrightarrow>
   outcome (listDepthWritesEach this ns) = outcome (processChildNodes this ns)"
proof (induction ns arbitrary: this)
  case Nil
  show ?case by (simp add: outcome_simps)
next
  case (Cons c cs)
  have c: "outcome (listDepthWrites this c) = outcome (processNode this c)"
    by (rule Cons.prems) simp
  have cs: "outcome (listDepthWritesEach this' cs) = outcome (processChildNodes this' cs)"
    for this'
    by (rule Cons.IH) (rule Cons.prems, simp)
  show ?case
  proof (cases "processNode this c")
    case (Inl e)
    with c have "listDepthWrites this c = Inl e"
      by (simp add: outcome_simps outcome_Inl)
    with Inl show ?thesis by (simp add: outcome_simps)
  next
    case (Inr r)
    then obtain s this' where r: "processNode this c = Inr (s, this')" by (cases r) auto
    with c obtain ws where w: "listDepthWrites this c = Inr (ws, this')"
      using outcome_Inr[of "listDepthWrites this c" this'] by (auto simp: outcome_simps)
    show ?thesis using cs[of this'] r w
      by (cases "processChildNodes this' cs"; cases "listDepthWritesEach this' cs")
         (auto simp: outcome_def)
  qed
qed

lemma writesEach_items:
  "(\<And>c this'. c \<in> set ns \<Longrightarrow>
      outcome (listDepthWrites this' c) = outcome (processNode this' c)) \<Longrightarrow>
   outcome (listDepthWritesEach this ns) = outcome (processItems this prefix ns)"
proof (induction ns arbitrary: this)
  case Nil
  show ?case by (simp add: outcome_simps)
next
  case (Cons c cs)
  have c: "outcome (listDepthWrites this c) = outcome (processNode this c)"
    by (rule Cons.prems) simp
  have cs: "outcome (listDepthWritesEach this' cs) = outcome (processItems this' prefix cs)"
    for this'
    by (rule Cons.IH) (rule Cons.prems, simp)
  show ?case
  proof (cases "processNode this c")
    case (Inl e)
    with c have "listDepthWrites this c = Inl e"
      by (simp add: outcome_simps outcome_Inl)
    with Inl show ?thesis by (simp add: outcome_simps)
  next
    case (Inr r)
    then obtain s this' where r: "processNode this c = Inr (s, this')" by (cases r) auto
    with c obtain ws where w: "listDepthWrites this c = Inr (ws, this')"
      using outcome_Inr[of "listDepthWrites this c" this'] by (auto simp: outcome_simps)
    show ?thesis using cs[of this'] r w
      by (cases "processItems this' prefix cs"; cases "listDepthWritesEach this' cs")
         (auto simp: outcome_def Let_def)
  qed
qed


lemma processNode_textOnly:
  assumes "(case tg of None \<Rightarrow> [] | Some t \<Rightarrow> toLowerCase t) \<in> set textOnlyTags"
  shows "\<exists>s. processNode this (HTMLElement tg as cl cs) = Inr (s, this)"
  unfolding processNode.simps Let_def
  apply (intro if_Inr)
  using assms
  apply (simp_all add: textOnlyTags_def split: option.split)
  done

lemma listDepthWrites_follows:
  "outcome (listDepthWrites this n) = outcome (processNode this n)"
proof (induction n arbitrary: this rule: measure_induct_rule[of size])
  case (less n)
  show ?case
  proof (cases n)
    case (TextNode t)
    then show ?thesis by (simp add: outcome_simps)
  next
    case (HTMLElement tg as cl cs)
    define tagN where "tagN = (case tg of None \<Rightarrow> [] | Some t \<Rightarrow> toLowerCase t)"
    have kids: "\<And>c this'. c \<in> set (childNodes n) \<Longrightarrow>
        outcome (listDepthWrites this' c) = outcome (processNode this' c)"
      using less.IH size_child by blast
    have children: "outcome (listDepthWritesEach this cs) = outcome (processChildren this n)"
      using writesEach_children[of cs this] kids HTMLElement by simp
    have list: "outcome (case repeat marker (listDepth (this\<lparr>listDepth := listDepth this + 1\<rparr>)) of
           Inl e \<Rightarrow> Inl e
         | Inr prefix \<Rightarrow>
             (case listDepthWritesEach (this\<lparr>listDepth := listDepth this + 1\<rparr>) (scopeChildren ''li'' n) of
                Inl e \<Rightarrow> Inl e
              | Inr (ws, this2) \<Rightarrow>
                  Inr ([listDepth (this\<lparr>listDepth := listDepth this + 1\<rparr>)] @ ws @ [listDepth this2 - 1],
                       this2\<lparr>listDepth := listDepth this2 - 1\<rparr>)))
        = outcome (processList this n marker)" for marker
    proof (cases "repeat marker (listDepth (this\<lparr>listDepth := listDepth this + 1\<rparr>))")
      case (Inl e)
      then show ?thesis by (simp add: Let_def outcome_simps)
    next
      case (Inr prefix)
      let ?this1 = "this\<lparr>listDepth := listDepth this + 1\<rparr>"
      have "outcome (listDepthWritesEach ?this1 (scopeChildren ''li'' n))
          = outcome (processItems ?this1 prefix (scopeChildren ''li'' n))"
        using writesEach_items[of "scopeChildren ''li'' n" ?this1 prefix] kids
        by (simp add: scopeChildren_def)
      then show ?thesis using Inr
        by (cases "processItems ?this1 prefix (scopeChildren ''li'' n)";
            cases "listDepthWritesEach ?this1 (scopeChildren ''li'' n)")
           (auto simp: Let_def outcome_def)
    qed
    have admon: "outcome (case querySelector (hasClass ''content'') n of
           None \<Rightarrow> Inr ([], this)
         | Some contentDiv \<Rightarrow> listDepthWrites this contentDiv)
        = outcome (processAdmonition this n)"
    proof (cases "querySelector (hasClass ''content'') n")
      case None
      then show ?thesis by (simp add: Let_def outcome_simps)
    next
      case (Some c)
      then have "outcome (listDepthWrites this c) = outcome (processNode this c)"
        using less.IH size_querySelector by blast
      then show ?thesis using Some
        by (cases "processNode this c"; cases "listDepthWrites this c")
           (auto simp: Let_def outcome_def)
    qed
    have quote: "outcome (processBlockquote this n) = outcome (processChildren this n)"
      by (cases "processChildren this n") (auto simp: Let_def outcome_def)
    consider (plain) "tagN \<in> set textOnlyTags" | (ul) "tagN = ''ul''" | (ol) "tagN = ''ol''"
      | (table) "tagN = ''table''" | (div) "tagN = ''div''" | (p) "tagN = ''p''"
      | (li) "tagN = ''li''" | (bq) "tagN = ''blockquote''" | (other) "tagN \<notin> set dispatchTags"
      by (auto simp: textOnlyTags_def dispatchTags_def)
    then show ?thesis
    proof cases
      case plain
      then obtain s where "processNode this (HTMLElement tg as cl cs) = Inr (s, this)"
        unfolding tagN_def using processNode_textOnly by blast
      moreover from plain have "listDepthWrites this (HTMLElement tg as cl cs) = Inr ([], this)"
        unfolding tagN_def by (simp add: Let_def)
      ultimately show ?thesis unfolding HTMLElement by (simp add: outcome_simps)
    next
      case ul
      then show ?thesis using list[of "''*''"] unfolding HTMLElement tagN_def
        by (simp add: textOnlyTags_def Let_def del: processList.simps)
    next
      case ol
      then show ?thesis using list[of "''.''"] unfolding HTMLElement tagN_def
        by (simp add: textOnlyTags_def Let_def del: processList.simps)
    next
      case table
      then show ?thesis unfolding HTMLElement tagN_def
        by (cases "processTable (HTMLElement tg as cl cs)")
           (simp_all add: textOnlyTags_def Let_def outcome_simps)
    next
      case div
      then show ?thesis using admon children unfolding HTMLElement tagN_def
        by (simp add: textOnlyTags_def Let_def outcome_simps
              del: processAdmonition.simps processChildren.simps)
    next
      case p
      then show ?thesis using children unfolding HTMLElement tagN_def
        by (cases "processChildren this (HTMLElement tg as cl cs)")
           (auto simp: textOnlyTags_def Let_def outcome_def simp del: processChildren.simps)
    next
      case li
      then show ?thesis using children unfolding HTMLElement tagN_def
        by (simp add: textOnlyTags_def Let_def del: processChildren.simps)
    next
      case bq
      then show ?thesis using children quote unfolding HTMLElement tagN_def
        by (simp add: textOnlyTags_def Let_def del: processChildren.simps processBlockquote.simps)
    next
      case other
      then show ?thesis using children unfolding HTMLElement tagN_def
        by (simp add: textOnlyTags_def dispatchTags_def Let_def del: processChildren.simps)
    qed
  qed
qed

text \<open>
  C7. The record of the assignments to the counter ends as the render does, with the same
  error or the same converter. From a depth that is not negative, every node renders and
  leaves the depth as it found it; this holds in particular for every \<^verbatim>\<open>ul\<close> and \<^verbatim>\<open>ol\<close> subtree. Every value assigned to
  the counter during the render is at least the depth at entry, hence not negative. A list
  first assigns the depth at entry plus one and last assigns the depth at entry, so the
  increment on entry is undone by the decrement on exit.
\<close>

theorem depth_nonnegative_and_restored:
  "outcome (listDepthWrites this n) = outcome (processNode this n)
   \<and> (0 \<le> listDepth this \<longrightarrow>
      (\<exists>s. processNode this n = Inr (s, this))
      \<and> (\<exists>ws. listDepthWrites this n = Inr (ws, this)
             \<and> (\<forall>d \<in> set ws. listDepth this \<le> d) \<and> (\<forall>d \<in> set ws. 0 \<le> d)))
   \<and> (0 \<le> listDepth this \<longrightarrow> isTag ''ul'' n \<or> isTag ''ol'' n \<longrightarrow>
      (\<exists>ws. listDepthWrites this n = Inr ([listDepth this + 1] @ ws @ [listDepth this], this)
             \<and> (\<forall>d \<in> set ws. listDepth this + 1 \<le> d)))
   \<and> (\<exists>s ws. convert HtmlToAsciiDocConverter root = Inr (s, HtmlToAsciiDocConverter)
             \<and> listDepthWrites HtmlToAsciiDocConverter root = Inr (ws, HtmlToAsciiDocConverter)
             \<and> (\<forall>d \<in> set ws. 0 \<le> d))"
proof (intro conjI impI)
  show "outcome (listDepthWrites this n) = outcome (processNode this n)"
    by (rule listDepthWrites_follows)
next
  assume "0 \<le> listDepth this"
  then show "\<exists>s. processNode this n = Inr (s, this)"
    using processNode_ok by blast
next
  assume depth: "0 \<le> listDepth this"
  from listDepthWrites_ok[OF depth, of n] obtain ws where
    ws: "listDepthWrites this n = Inr (ws, this)" "\<forall>d \<in> set ws. listDepth this \<le> d"
    by blast
  from ws(2) depth have "\<forall>d \<in> set ws. 0 \<le> d" by auto
  with ws show "\<exists>ws. listDepthWrites this n = Inr (ws, this)
             \<and> (\<forall>d \<in> set ws. listDepth this \<le> d) \<and> (\<forall>d \<in> set ws. 0 \<le> d)"
    by blast
next
  assume "0 \<le> listDepth this" and "isTag ''ul'' n \<or> isTag ''ol'' n"
  then show "\<exists>ws. listDepthWrites this n = Inr ([listDepth this + 1] @ ws @ [listDepth this], this)
             \<and> (\<forall>d \<in> set ws. listDepth this + 1 \<le> d)"
    using listDepthWrites_list_node by blast
next
  have depth: "0 \<le> listDepth HtmlToAsciiDocConverter"
    by (simp add: HtmlToAsciiDocConverter_def)
  from listDepthWrites_ok[OF depth, of root] obtain ws where
    "listDepthWrites HtmlToAsciiDocConverter root = Inr (ws, HtmlToAsciiDocConverter)"
    "\<forall>d \<in> set ws. 0 \<le> d"
    using depth by (auto simp: HtmlToAsciiDocConverter_def)
  moreover have "convert HtmlToAsciiDocConverter root
      = Inr (render HtmlToAsciiDocConverter root, HtmlToAsciiDocConverter)"
    using processNode_ok[OF depth, of root] by (simp add: convert_def)
  ultimately show "\<exists>s ws. convert HtmlToAsciiDocConverter root = Inr (s, HtmlToAsciiDocConverter)
             \<and> listDepthWrites HtmlToAsciiDocConverter root = Inr (ws, HtmlToAsciiDocConverter)
             \<and> (\<forall>d \<in> set ws. 0 \<le> d)"
    by blast
qed

theorem depth_nonnegative_and_restored_witness:
  "0 \<le> listDepth HtmlToAsciiDocConverter
   \<and> (isTag ''ul'' (HTMLElement (Some ''UL'') [] []
        [HTMLElement (Some ''LI'') [] []
           [TextNode ''A'',
            HTMLElement (Some ''OL'') [] [] [HTMLElement (Some ''LI'') [] [] [TextNode ''B'']]]])
      \<or> isTag ''ol'' (HTMLElement (Some ''UL'') [] []
        [HTMLElement (Some ''LI'') [] []
           [TextNode ''A'',
            HTMLElement (Some ''OL'') [] [] [HTMLElement (Some ''LI'') [] [] [TextNode ''B'']]]]))
   \<and> processNode HtmlToAsciiDocConverter (HTMLElement (Some ''UL'') [] []
        [HTMLElement (Some ''LI'') [] []
           [TextNode ''A'',
            HTMLElement (Some ''OL'') [] [] [HTMLElement (Some ''LI'') [] [] [TextNode ''B'']]]])
      = Inr (''* A.. B\<newline>\<newline>'', HtmlToAsciiDocConverter)
   \<and> listDepthWrites HtmlToAsciiDocConverter (HTMLElement (Some ''UL'') [] []
        [HTMLElement (Some ''LI'') [] []
           [TextNode ''A'',
            HTMLElement (Some ''OL'') [] [] [HTMLElement (Some ''LI'') [] [] [TextNode ''B'']]]])
      = Inr ([1, 2, 1, 0], HtmlToAsciiDocConverter)
   \<and> list_all (\<lambda>d. 0 \<le> d) [1, 2, 1, 0 :: int]"
proof -
  let ?n = "HTMLElement (Some ''UL'') [] []
        [HTMLElement (Some ''LI'') [] []
           [TextNode ''A'',
            HTMLElement (Some ''OL'') [] [] [HTMLElement (Some ''LI'') [] [] [TextNode ''B'']]]]"
  have depth: "0 \<le> listDepth HtmlToAsciiDocConverter"
    by (simp add: HtmlToAsciiDocConverter_def)
  have tag: "isTag ''ul'' ?n \<or> isTag ''ol'' ?n" by code_simp
  have out: "processNode HtmlToAsciiDocConverter ?n = Inr (''* A.. B\<newline>\<newline>'', HtmlToAsciiDocConverter)"
    by code_simp
  have writes: "listDepthWrites HtmlToAsciiDocConverter ?n = Inr ([1, 2, 1, 0], HtmlToAsciiDocConverter)"
    by code_simp
  from depth_nonnegative_and_restored[where this = HtmlToAsciiDocConverter and n = ?n] depth
  obtain ws where "listDepthWrites HtmlToAsciiDocConverter ?n = Inr (ws, HtmlToAsciiDocConverter)"
    and "\<forall>d \<in> set ws. 0 \<le> d"
    by blast
  with writes have "list_all (\<lambda>d. 0 \<le> d) [1, 2, 1, 0 :: int]"
    by (simp add: list_all_iff)
  with depth tag out writes show ?thesis by (simp only: simp_thms)
qed

subsection \<open>Repeated conversions\<close>

lemma deep_list_overflow:
  assumes "0 \<le> listDepth this" and "5 \<le> stack" and "stack \<le> 2 * depth + 7"
  shows "convertOn stack this
           (fragment [HTMLElement (Some ''UL'') [] []
              [HTMLElement (Some ''LI'') [] [] [nestedSpans depth]]])
         = Inl (RangeError, this\<lparr>listDepth := listDepth this + 1\<rparr>)"
proof -
  let ?this1 = "this\<lparr>listDepth := listDepth this + 1\<rparr>"
  let ?li = "HTMLElement (Some ''LI'') [] [] [nestedSpans depth]"
  have lower: "toLowerCase ''UL'' = ''ul''" "toLowerCase ''LI'' = ''li''" by code_simp+
  from assms(2) obtain k where k: "stack = Suc (Suc (Suc (Suc (Suc k))))"
    by (cases stack; cases "stack - 1"; cases "stack - 2"; cases "stack - 3";
        cases "stack - 4") auto
  have item: "processNodeOn k ?this1 ?li = Inl (RangeError, ?this1)"
  proof (cases k)
    case 0
    then show ?thesis by simp
  next
    case (Suc j)
    show ?thesis
    proof (cases j)
      case 0
      then show ?thesis using Suc by (simp add: lower)
    next
      case (Suc i)
      have "i \<le> 2 * depth" using assms(3) k \<open>k = Suc j\<close> Suc by simp
      then have "processNodeOn i ?this1 (nestedSpans depth) = Inl (RangeError, ?this1)"
        by (rule nestedSpans_overflow)
      then show ?thesis using Suc \<open>k = Suc j\<close> by (simp add: lower)
    qed
  qed
  have items: "scopeChildren ''li'' (HTMLElement (Some ''UL'') [] [] [?li]) = [?li]"
    by (simp add: scopeChildren_def isTag_def lower)
  have "processListOn (Suc k) this (HTMLElement (Some ''UL'') [] [] [?li]) ''*''
      = Inl (RangeError, ?this1)"
    using item assms(1) unfolding processListOn.simps Let_def items
    by (simp add: repeat_def del: processNodeOn.simps)
  then show ?thesis
    unfolding k fragment_def
    by (simp add: lower del: processListOn.simps)
qed

text \<open>
  C8. A conversion that throws inside a list leaves the depth counter raised: \<^verbatim>\<open>processList\<close>
  decrements it after the loop over the items, on no other path. \<^verbatim>\<open>generateAsciiDoc\<close> catches
  the error and goes on with the same converter. So after a document that nests a text in a
  list item deeper than the stack holds, the document \<^verbatim>\<open><ul><li>A</li></ul>\<close> renders as
  \<^verbatim>\<open>** A\<close>, where a fresh converter gives \<^verbatim>\<open>* A\<close>.
\<close>

theorem list_depth_leaks_after_throw:
  "convertDocuments (11 + stack) createHtmlToAsciiDocConverter
     [fragment [HTMLElement (Some ''UL'') [] []
        [HTMLElement (Some ''LI'') [] [] [nestedSpans (11 + stack)]]],
      fragment [HTMLElement (Some ''UL'') [] [] [HTMLElement (Some ''LI'') [] [] [TextNode ''A'']]]]
     = ([Inl RangeError, Inr ''** A\<newline>\<newline>''], \<lparr>listDepth = 1\<rparr>)
   \<and> convertOn (11 + stack) createHtmlToAsciiDocConverter
       (fragment [HTMLElement (Some ''UL'') [] [] [HTMLElement (Some ''LI'') [] [] [TextNode ''A'']]])
     = Inr (''* A\<newline>\<newline>'', createHtmlToAsciiDocConverter)"
proof -
  let ?fresh = "createHtmlToAsciiDocConverter"
  let ?doc = "fragment [HTMLElement (Some ''UL'') [] [] [HTMLElement (Some ''LI'') [] [] [TextNode ''A'']]]"
  have fresh: "?fresh = \<lparr>listDepth = 0\<rparr>"
    by (simp add: createHtmlToAsciiDocConverter_def HtmlToAsciiDocConverter_def)
  have need: "stackNeed ?doc \<le> 10 + stack" by (simp add: stackNeed_def fragment_def)
  have stack: "11 + stack = Suc (10 + stack)" by simp
  have first: "convertOn (11 + stack) ?fresh
           (fragment [HTMLElement (Some ''UL'') [] []
              [HTMLElement (Some ''LI'') [] [] [nestedSpans (11 + stack)]]])
         = Inl (RangeError, \<lparr>listDepth = 1\<rparr>)"
    using deep_list_overflow[of ?fresh "11 + stack" "11 + stack"] by (simp add: fresh)
  have leaked: "render \<lparr>listDepth = 1\<rparr> ?doc = ''** A\<newline>\<newline>''" by code_simp
  have alone: "render ?fresh ?doc = ''* A\<newline>\<newline>''" by code_simp
  have second: "convertOn (11 + stack) \<lparr>listDepth = 1\<rparr> ?doc
      = Inr (''** A\<newline>\<newline>'', \<lparr>listDepth = 1\<rparr>)"
    using processNodeOn_enough[OF need, of "\<lparr>listDepth = 1\<rparr>"] leaked
    unfolding stack convertOn.simps by simp
  have third: "convertOn (11 + stack) ?fresh ?doc = Inr (''* A\<newline>\<newline>'', ?fresh)"
    using processNodeOn_enough[OF need, of ?fresh] alone
    unfolding stack convertOn.simps by (simp add: fresh)
  show ?thesis using first second third
    by (simp del: convertOn.simps)
qed

section \<open>Properties of the document pipeline\<close>

text \<open>
  C9. The header step drops the first line of the converted text when it starts with
  \<^verbatim>\<open>= \<close>. In a page whose \<^verbatim>\<open>h1\<close> comes after white space, as in
  \<^verbatim>\<open><article class="doc">\<close>, a line feed, \<^verbatim>\<open><h1 class="page">T</h1>\<close>, the first line of the
  converted text is empty and the line of the \<^verbatim>\<open>h1\<close> is the second one: it stays, the title
  line is put in front, and the document has two title lines. When the \<^verbatim>\<open>h1\<close> is the first
  node, the document has one. A title with a line break in it, as in \<^verbatim>\<open><h1>A<br>B</h1>\<close>, is
  written on two lines, so the first line is not \<^verbatim>\<open>= <title>\<close>; and the link clean-up
  rewrites a title that contains \<^verbatim>\<open>.html#\<close>.
\<close>

theorem two_title_lines:
  "pageTitleOf (HTMLElement (Some ''ARTICLE'') [(''class'', ''doc'')] [''doc'']
        [TextNode ''\<newline>'', HTMLElement (Some ''H1'') [(''class'', ''page'')] [''page''] [TextNode ''T''],
         TextNode ''\<newline>'', HTMLElement (Some ''P'') [] [] [TextNode ''Body'']]) = ''T''
   \<and> convert createHtmlToAsciiDocConverter
       (fragment [TextNode ''\<newline>'', HTMLElement (Some ''H1'') [(''class'', ''page'')] [''page''] [TextNode ''T''],
         TextNode ''\<newline>'', HTMLElement (Some ''P'') [] [] [TextNode ''Body'']])
     = Inr (''\<newline>= T\<newline>\<newline>\<newline>Body\<newline>\<newline>'', createHtmlToAsciiDocConverter)
   \<and> generateDocument createHtmlToAsciiDocConverter
       (HTMLElement (Some ''ARTICLE'') [(''class'', ''doc'')] [''doc'']
        [TextNode ''\<newline>'', HTMLElement (Some ''H1'') [(''class'', ''page'')] [''page''] [TextNode ''T''],
         TextNode ''\<newline>'', HTMLElement (Some ''P'') [] [] [TextNode ''Body'']])
     = Inr (''= T\<newline>\<newline>= T\<newline>\<newline>Body\<newline>\<newline>'', createHtmlToAsciiDocConverter)
   \<and> count_list (split CHR ''\<newline>'' ''= T\<newline>\<newline>= T\<newline>\<newline>Body\<newline>\<newline>'') ''= T'' = 2
   \<and> generateDocument createHtmlToAsciiDocConverter
       (HTMLElement (Some ''ARTICLE'') [(''class'', ''doc'')] [''doc'']
        [HTMLElement (Some ''H1'') [(''class'', ''page'')] [''page''] [TextNode ''T''],
         TextNode ''\<newline>'', HTMLElement (Some ''P'') [] [] [TextNode ''Body'']])
     = Inr (''= T\<newline>\<newline>Body\<newline>\<newline>'', createHtmlToAsciiDocConverter)
   \<and> count_list (split CHR ''\<newline>'' ''= T\<newline>\<newline>Body\<newline>\<newline>'') ''= T'' = 1
   \<and> pageTitleOf (HTMLElement (Some ''ARTICLE'') [(''class'', ''doc'')] [''doc'']
        [HTMLElement (Some ''H1'') [] []
           [TextNode ''A'', HTMLElement (Some ''BR'') [] [] [], TextNode ''B'']]) = ''A\<newline>B''
   \<and> generateDocument createHtmlToAsciiDocConverter
       (HTMLElement (Some ''ARTICLE'') [(''class'', ''doc'')] [''doc'']
        [HTMLElement (Some ''H1'') [] []
           [TextNode ''A'', HTMLElement (Some ''BR'') [] [] [], TextNode ''B'']])
     = Inr (''= A\<newline>B\<newline>\<newline>'', createHtmlToAsciiDocConverter)
   \<and> hd (split CHR ''\<newline>'' ''= A\<newline>B\<newline>\<newline>'') = ''= A''
   \<and> pageTitleOf (HTMLElement (Some ''ARTICLE'') [(''class'', ''doc'')] [''doc'']
        [HTMLElement (Some ''H1'') [] [] [TextNode ''index.html#top'']]) = ''index.html#top''
   \<and> generateDocument createHtmlToAsciiDocConverter
       (HTMLElement (Some ''ARTICLE'') [(''class'', ''doc'')] [''doc'']
          [HTMLElement (Some ''H1'') [] [] [TextNode ''index.html#top'']])
     = Inr (''= index.adoc#top\<newline>\<newline>'', createHtmlToAsciiDocConverter)"
  by code_simp

end
